theory Spec2Isabelle
  imports Complex_Main "HOL-Library.Word"
begin

unbundle bit_operations_syntax

section \<open>JavaScript values\<close>

text \<open>
  A JavaScript string is a sequence of UTF-16 code units; a code unit is modelled as a
  natural number. \<open>str\<close> turns an ASCII literal into such a string. A byte is an 8-bit
  word. Exceptions are values of type \<open>error\<close>; a function that may throw returns
  \<open>error + 'a\<close>, with \<open>Inl\<close> for the exception.
\<close>

type_synonym jsstring = "nat list"
type_synonym byte = "8 word"

definition str :: "string \<Rightarrow> jsstring" where
  "str s = map of_char s"

datatype error = TypeError | URIError | RangeError | Error string

definition bindE :: "error + 'a \<Rightarrow> ('a \<Rightarrow> error + 'b) \<Rightarrow> error + 'b" where
  "bindE m f = (case m of Inl e \<Rightarrow> Inl e | Inr x \<Rightarrow> f x)"

subsection \<open>String.prototype methods\<close>

definition isLineTerminator :: "nat \<Rightarrow> bool" where
  "isLineTerminator c = (c = 0x0A \<or> c = 0x0D \<or> c = 0x2028 \<or> c = 0x2029)"

text \<open>The code units removed by \<open>trim\<close> and matched by \<open>\s\<close>: WhiteSpace and LineTerminator.\<close>

definition isWhiteSpace :: "nat \<Rightarrow> bool" where
  "isWhiteSpace c =
     (c = 0x09 \<or> c = 0x0B \<or> c = 0x0C \<or> c = 0x20 \<or> c = 0xA0 \<or> c = 0x1680
      \<or> (0x2000 \<le> c \<and> c \<le> 0x200A) \<or> c = 0x202F \<or> c = 0x205F \<or> c = 0x3000
      \<or> c = 0xFEFF \<or> isLineTerminator c)"

definition trim :: "jsstring \<Rightarrow> jsstring" where
  "trim s = rev (dropWhile isWhiteSpace (rev (dropWhile isWhiteSpace s)))"

definition startsWith :: "jsstring \<Rightarrow> jsstring \<Rightarrow> bool" where
  "startsWith s p = (take (length p) s = p)"

fun js_includes :: "jsstring \<Rightarrow> jsstring \<Rightarrow> bool" where
  "js_includes [] p = (p = [])"
| "js_includes (c # cs) p = (startsWith (c # cs) p \<or> js_includes cs p)"

text \<open>\<open>s.replace(/a/g, b)\<close> for single code units, and \<open>s.replace(/a/g, '')\<close>.\<close>

definition replaceAll :: "nat \<Rightarrow> nat \<Rightarrow> jsstring \<Rightarrow> jsstring" where
  "replaceAll a b s = map (\<lambda>c. if c = a then b else c) s"

definition removeAll :: "nat \<Rightarrow> jsstring \<Rightarrow> jsstring" where
  "removeAll a s = filter (\<lambda>c. c \<noteq> a) s"

text \<open>\<open>s.replace(p, '')\<close> with a string pattern: the first occurrence only.\<close>

fun removeFirst :: "jsstring \<Rightarrow> jsstring \<Rightarrow> jsstring" where
  "removeFirst p [] = []"
| "removeFirst p (c # cs) =
     (if startsWith (c # cs) p then drop (length p) (c # cs) else c # removeFirst p cs)"

text \<open>\<open>s.split(sep)\<close> with a one-unit separator.\<close>

fun js_split :: "nat \<Rightarrow> jsstring \<Rightarrow> jsstring list" where
  "js_split sep [] = [[]]"
| "js_split sep (c # cs) =
     (if c = sep then [] # js_split sep cs
      else (case js_split sep cs of [] \<Rightarrow> [[c]] | p # ps \<Rightarrow> (c # p) # ps))"

definition padEnd :: "nat \<Rightarrow> nat \<Rightarrow> jsstring \<Rightarrow> jsstring" where
  "padEnd n c s = s @ replicate (n - length s) c"

subsection \<open>parseInt with radix 16\<close>

definition hexDigitValue :: "nat \<Rightarrow> nat option" where
  "hexDigitValue c =
     (if 0x30 \<le> c \<and> c \<le> 0x39 then Some (c - 0x30)
      else if 0x41 \<le> c \<and> c \<le> 0x46 then Some (c - 0x41 + 10)
      else if 0x61 \<le> c \<and> c \<le> 0x66 then Some (c - 0x61 + 10)
      else None)"

definition isHexDigit :: "nat \<Rightarrow> bool" where
  "isHexDigit c = (hexDigitValue c \<noteq> None)"

definition hexValue :: "jsstring \<Rightarrow> nat" where
  "hexValue ds = foldl (\<lambda>acc c. acc * 16 + the (hexDigitValue c)) 0 ds"

text \<open>
  \<open>parseInt(s, 16)\<close>: leading white space is skipped, then an optional sign, then an
  optional \<open>0x\<close> prefix, then the longest run of hex digits. \<open>None\<close> is NaN.
\<close>

definition parseInt16 :: "jsstring \<Rightarrow> int option" where
  "parseInt16 s =
     (let s1 = dropWhile isWhiteSpace s;
          neg = (case s1 of c # _ \<Rightarrow> c = 0x2D | [] \<Rightarrow> False);
          s2 = (case s1 of c # r \<Rightarrow> if c = 0x2D \<or> c = 0x2B then r else s1 | [] \<Rightarrow> s1);
          s3 = (if startsWith s2 (str ''0x'') \<or> startsWith s2 (str ''0X'') then drop 2 s2 else s2);
          ds = takeWhile isHexDigit s3
      in if ds = [] then None
         else Some (if neg then - int (hexValue ds) else int (hexValue ds)))"

section \<open>Text codecs of the platform and of crypto-js\<close>

subsection \<open>UTF-8\<close>

text \<open>
  One scan serves both decoders. It yields \<open>Some cp\<close> for every well-formed UTF-8
  sequence and \<open>None\<close> for every ill-formed piece, cut as the WHATWG decoder cuts it
  (the offending byte is looked at again unless it was a lead byte).
\<close>

definition inRange :: "nat \<Rightarrow> nat \<Rightarrow> byte \<Rightarrow> bool" where
  "inRange lo hi b = (lo \<le> unat b \<and> unat b \<le> hi)"

definition lower2 :: "byte \<Rightarrow> nat" where
  "lower2 b = (if b = 0xE0 then 0xA0 else if b = 0xF0 then 0x90 else 0x80)"

definition upper2 :: "byte \<Rightarrow> nat" where
  "upper2 b = (if b = 0xED then 0x9F else if b = 0xF4 then 0x8F else 0xBF)"

definition contBits :: "byte \<Rightarrow> nat" where
  "contBits b = unat b mod 64"

fun utf8_scan :: "byte list \<Rightarrow> nat option list" where
  "utf8_scan [] = []"
| "utf8_scan (b # bs) =
     (if unat b < 0x80 then Some (unat b) # utf8_scan bs
      else if inRange 0xC2 0xDF b then
        (case bs of
           [] \<Rightarrow> [None]
         | c # cs \<Rightarrow>
             if inRange 0x80 0xBF c
             then Some ((unat b mod 32) * 64 + contBits c) # utf8_scan cs
             else None # utf8_scan bs)
      else if inRange 0xE0 0xEF b then
        (case bs of
           [] \<Rightarrow> [None]
         | c # cs \<Rightarrow>
             if inRange (lower2 b) (upper2 b) c then
               (case cs of
                  [] \<Rightarrow> [None]
                | d # ds \<Rightarrow>
                    if inRange 0x80 0xBF d
                    then Some ((unat b mod 16) * 4096 + contBits c * 64 + contBits d)
                           # utf8_scan ds
                    else None # utf8_scan cs)
             else None # utf8_scan bs)
      else if inRange 0xF0 0xF4 b then
        (case bs of
           [] \<Rightarrow> [None]
         | c # cs \<Rightarrow>
             if inRange (lower2 b) (upper2 b) c then
               (case cs of
                  [] \<Rightarrow> [None]
                | d # ds \<Rightarrow>
                    if inRange 0x80 0xBF d then
                      (case ds of
                         [] \<Rightarrow> [None]
                       | e # es \<Rightarrow>
                           if inRange 0x80 0xBF e
                           then Some ((unat b mod 8) * 262144 + contBits c * 4096
                                        + contBits d * 64 + contBits e) # utf8_scan es
                           else None # utf8_scan ds)
                    else None # utf8_scan cs)
             else None # utf8_scan bs)
      else None # utf8_scan bs)"

definition utf16_units :: "nat \<Rightarrow> jsstring" where
  "utf16_units cp =
     (if cp < 0x10000 then [cp]
      else [0xD800 + (cp - 0x10000) div 0x400, 0xDC00 + (cp - 0x10000) mod 0x400])"

text \<open>
  \<open>CryptoJS.enc.Utf8.stringify\<close> is \<open>decodeURIComponent(escape(latin1))\<close>: a strict
  decoder that throws \<open>Malformed UTF-8 data\<close> on any ill-formed sequence.
\<close>

definition Utf8_stringify :: "byte list \<Rightarrow> error + jsstring" where
  "Utf8_stringify bs =
     (let r = utf8_scan bs
      in if None \<in> set r then Inl (Error ''Malformed UTF-8 data'')
         else Inr (concat (map (\<lambda>x. utf16_units (the x)) r)))"

text \<open>
  \<open>new TextDecoder().decode(bytes)\<close>: never throws; every ill-formed piece becomes
  U+FFFD and a leading byte order mark is dropped.
\<close>

definition stripBOM :: "byte list \<Rightarrow> byte list" where
  "stripBOM bs = (if take 3 bs = [0xEF, 0xBB, 0xBF] then drop 3 bs else bs)"

definition TextDecoder_decode :: "byte list \<Rightarrow> jsstring" where
  "TextDecoder_decode bs =
     concat (map (\<lambda>x. case x of None \<Rightarrow> [0xFFFD] | Some cp \<Rightarrow> utf16_units cp)
                 (utf8_scan (stripBOM bs)))"

text \<open>
  \<open>CryptoJS.enc.Utf8.parse\<close> is \<open>unescape(encodeURIComponent(s))\<close> read as bytes;
  \<open>encodeURIComponent\<close> throws a URIError on an unpaired surrogate.
\<close>

fun codePoints :: "jsstring \<Rightarrow> error + nat list" where
  "codePoints [] = Inr []"
| "codePoints (c # cs) =
     (if 0xDC00 \<le> c \<and> c \<le> 0xDFFF then Inl URIError
      else if 0xD800 \<le> c \<and> c \<le> 0xDBFF then
        (case cs of
           [] \<Rightarrow> Inl URIError
         | d # ds \<Rightarrow>
             if 0xDC00 \<le> d \<and> d \<le> 0xDFFF
             then bindE (codePoints ds)
                    (\<lambda>r. Inr (((c - 0xD800) * 0x400 + (d - 0xDC00) + 0x10000) # r))
             else Inl URIError)
      else bindE (codePoints cs) (\<lambda>r. Inr (c # r)))"

definition utf8_bytes :: "nat \<Rightarrow> byte list" where
  "utf8_bytes cp =
     (if cp < 0x80 then [of_nat cp]
      else if cp < 0x800 then [of_nat (0xC0 + cp div 64), of_nat (0x80 + cp mod 64)]
      else if cp < 0x10000 then
        [of_nat (0xE0 + cp div 4096), of_nat (0x80 + cp div 64 mod 64), of_nat (0x80 + cp mod 64)]
      else
        [of_nat (0xF0 + cp div 262144), of_nat (0x80 + cp div 4096 mod 64),
         of_nat (0x80 + cp div 64 mod 64), of_nat (0x80 + cp mod 64)])"

definition Utf8_parse :: "jsstring \<Rightarrow> error + byte list" where
  "Utf8_parse s = bindE (codePoints s) (\<lambda>cps. Inr (concat (map utf8_bytes cps)))"

subsection \<open>Case conversion\<close>

text \<open>
  \<open>String.prototype.toUpperCase\<close> and \<open>toLowerCase\<close> read the string as code points (a
  surrogate pair is one code point, an unpaired surrogate stands for itself), replace
  every code point by its Unicode case mapping, which may be several code points, and
  write the result back as code units. On the code points below 128 the mapping is that
  of the ASCII letters. The mapping of the other code points comes from the Unicode
  tables of the engine and is a parameter: \<open>Uppercase_Mapping\<close> of a code point, and
  \<open>Lowercase_Mapping\<close> of a code point between the code points before it and after it
  (the lower case of a capital sigma depends on its neighbours). So \<open>U+017F\<close> may become
  \<open>S\<close>, and a ligature may become two letters.
\<close>

record unicode =
  Uppercase_Mapping :: "nat \<Rightarrow> nat list"
  Lowercase_Mapping :: "nat list \<Rightarrow> nat \<Rightarrow> nat list \<Rightarrow> nat list"

fun StringToCodePoints :: "jsstring \<Rightarrow> nat list" where
  "StringToCodePoints [] = []"
| "StringToCodePoints [c] = [c]"
| "StringToCodePoints (c # d # ds) =
     (if 0xD800 \<le> c \<and> c \<le> 0xDBFF \<and> 0xDC00 \<le> d \<and> d \<le> 0xDFFF
      then ((c - 0xD800) * 0x400 + (d - 0xDC00) + 0x10000) # StringToCodePoints ds
      else c # StringToCodePoints (d # ds))"

definition CodePointsToString :: "nat list \<Rightarrow> jsstring" where
  "CodePointsToString cps = concat (map utf16_units cps)"

definition asciiUpper :: "nat \<Rightarrow> nat" where
  "asciiUpper c = (if 0x61 \<le> c \<and> c \<le> 0x7A then c - 0x20 else c)"

definition asciiLower :: "nat \<Rightarrow> nat" where
  "asciiLower c = (if 0x41 \<le> c \<and> c \<le> 0x5A then c + 0x20 else c)"

definition upperCodePoint :: "'a unicode_scheme \<Rightarrow> nat \<Rightarrow> nat list" where
  "upperCodePoint U cp = (if cp < 0x80 then [asciiUpper cp] else Uppercase_Mapping U cp)"

fun lowerCodePoints :: "'a unicode_scheme \<Rightarrow> nat list \<Rightarrow> nat list \<Rightarrow> nat list" where
  "lowerCodePoints U before [] = []"
| "lowerCodePoints U before (cp # after) =
     (if cp < 0x80 then [asciiLower cp] else Lowercase_Mapping U before cp after)
       @ lowerCodePoints U (before @ [cp]) after"

definition toUpperCase :: "'a unicode_scheme \<Rightarrow> jsstring \<Rightarrow> jsstring" where
  "toUpperCase U s =
     CodePointsToString (concat (map (upperCodePoint U) (StringToCodePoints s)))"

definition toLowerCase :: "'a unicode_scheme \<Rightarrow> jsstring \<Rightarrow> jsstring" where
  "toLowerCase U s = CodePointsToString (lowerCodePoints U [] (StringToCodePoints s))"

section \<open>Library primitives taken as parameters\<close>

text \<open>
  The block ciphers and the public-key cipher live in crypto-js, sm-crypto and jsencrypt,
  outside the repository. They are parameters of the model: total functions that may
  return an exception. \<open>CryptoJS.mode\<close> and \<open>CryptoJS.pad\<close> are the library's tables of
  modes and padding schemes; an \<open>aes_options\<close> value is the options object handed to
  \<open>CryptoJS.AES.encrypt\<close> and \<open>CryptoJS.AES.decrypt\<close>.
\<close>

datatype cj_mode = CBC | CFB | CTR | CTRGladman | OFB | ECB

datatype cj_pad = Pkcs7 | AnsiX923 | Iso10126 | Iso97971 | ZeroPadding | NoPadding

record aes_options =
  opt_mode :: cj_mode
  opt_padding :: cj_pad
  opt_iv :: "byte list option"

record sm4_options =
  sm4_mode :: jsstring
  sm4_iv :: "jsstring option"

record platform = unicode +
  Hex_parse_other :: "jsstring \<Rightarrow> byte list"
  AES_encrypt :: "jsstring \<Rightarrow> byte list \<Rightarrow> aes_options \<Rightarrow> error + jsstring"
  AES_decrypt :: "jsstring \<Rightarrow> byte list \<Rightarrow> aes_options \<Rightarrow> error + byte list"
  sm4_decrypt :: "jsstring \<Rightarrow> jsstring \<Rightarrow> sm4_options \<Rightarrow> error + jsstring"
  JSEncrypt_decrypt :: "jsstring \<Rightarrow> jsstring \<Rightarrow> error + jsstring option"
  decodeURIComponent :: "jsstring \<Rightarrow> error + jsstring"

text \<open>The tables are keyed by the library's own spelling; a lookup is case sensitive.\<close>

definition CryptoJS_mode :: "jsstring \<Rightarrow> cj_mode option" where
  "CryptoJS_mode k =
     (if k = str ''CBC'' then Some CBC
      else if k = str ''CFB'' then Some CFB
      else if k = str ''CTR'' then Some CTR
      else if k = str ''CTRGladman'' then Some CTRGladman
      else if k = str ''OFB'' then Some OFB
      else if k = str ''ECB'' then Some ECB
      else None)"

definition CryptoJS_pad :: "jsstring \<Rightarrow> cj_pad option" where
  "CryptoJS_pad k =
     (if k = str ''Pkcs7'' then Some Pkcs7
      else if k = str ''AnsiX923'' then Some AnsiX923
      else if k = str ''Iso10126'' then Some Iso10126
      else if k = str ''Iso97971'' then Some Iso97971
      else if k = str ''ZeroPadding'' then Some ZeroPadding
      else if k = str ''NoPadding'' then Some NoPadding
      else None)"

subsection \<open>Hexadecimal\<close>

definition hexChar :: "nat \<Rightarrow> nat" where
  "hexChar d = str ''0123456789abcdef'' ! d"

definition Hex_stringify :: "byte list \<Rightarrow> jsstring" where
  "Hex_stringify bs = concat (map (\<lambda>b. [hexChar (unat b div 16), hexChar (unat b mod 16)]) bs)"

text \<open>
  \<open>CryptoJS.enc.Hex.parse\<close> reads \<open>parseInt(hexStr.substr(i, 2), 16)\<close> for every even
  \<open>i\<close> and never throws. On a string of hex digit pairs that gives one byte per pair.
  On any other string (a unit that is no hex digit, or an odd length, for which the
  library records a fractional byte count) the result is whatever the library leaves
  in its word array: the parameter \<open>Hex_parse_other\<close>.
\<close>

fun hexPairs :: "jsstring \<Rightarrow> byte list" where
  "hexPairs (a # b # r) =
     (case parseInt16 [a, b] of None \<Rightarrow> 0 | Some v \<Rightarrow> of_int v) # hexPairs r"
| "hexPairs r = []"

definition Hex_parse :: "platform \<Rightarrow> jsstring \<Rightarrow> byte list" where
  "Hex_parse P s =
     (if even (length s) \<and> list_all isHexDigit s then hexPairs s else Hex_parse_other P s)"

subsection \<open>Base64\<close>

definition base64_map :: jsstring where
  "base64_map = str ''ABCDEFGHIJKLMNOPQRSTUVWXYZabcdefghijklmnopqrstuvwxyz0123456789+/=''"

definition triplet :: "byte \<Rightarrow> byte \<Rightarrow> byte \<Rightarrow> nat" where
  "triplet byte1 byte2 byte3 = push_bit 16 (unat byte1) OR push_bit 8 (unat byte2) OR unat byte3"

definition sextetChar :: "nat \<Rightarrow> nat \<Rightarrow> nat" where
  "sextetChar t j = base64_map ! (drop_bit (6 * (3 - j)) t AND 0x3f)"

text \<open>
  \<open>CryptoJS.enc.Base64.stringify\<close>: three bytes give four characters; a last group of
  one or two bytes gives two or three, and \<open>=\<close> fills the length up to a multiple of 4.
\<close>

fun base64Chars :: "byte list \<Rightarrow> jsstring" where
  "base64Chars [] = []"
| "base64Chars [b1] = map (sextetChar (triplet b1 0 0)) [0, 1]"
| "base64Chars [b1, b2] = map (sextetChar (triplet b1 b2 0)) [0, 1, 2]"
| "base64Chars (b1 # b2 # b3 # r) = map (sextetChar (triplet b1 b2 b3)) [0, 1, 2, 3] @ base64Chars r"

definition padTo4 :: "jsstring \<Rightarrow> jsstring" where
  "padTo4 s = s @ replicate ((4 - length s mod 4) mod 4) 0x3D"

definition Base64_stringify :: "byte list \<Rightarrow> jsstring" where
  "Base64_stringify bs = padTo4 (base64Chars bs)"

text \<open>
  \<open>CryptoJS.enc.Base64.parse\<close>: the string is cut at the first \<open>=\<close>; a unit outside the
  alphabet has no entry in the reverse map and counts as 0 in the shifts (\<open>reverseMap\<close>
  is the inverse of \<open>base64_map\<close>, written out by ranges); every position
  \<open>i\<close> with \<open>i % 4 \<noteq> 0\<close> yields one byte from the units at \<open>i - 1\<close> and \<open>i\<close>.
\<close>

definition reverseMap :: "nat \<Rightarrow> nat" where
  "reverseMap c =
     (if 0x41 \<le> c \<and> c \<le> 0x5A then c - 0x41
      else if 0x61 \<le> c \<and> c \<le> 0x7A then c - 0x61 + 26
      else if 0x30 \<le> c \<and> c \<le> 0x39 then c - 0x30 + 52
      else if c = 0x2B then 62
      else if c = 0x2F then 63
      else if c = 0x3D then 64
      else 0)"

definition bitsCombined :: "nat \<Rightarrow> nat \<Rightarrow> nat \<Rightarrow> byte" where
  "bitsCombined k c c' =
     of_nat (push_bit (k * 2) (reverseMap c) OR drop_bit (6 - k * 2) (reverseMap c'))"

fun parseLoop :: "jsstring \<Rightarrow> byte list" where
  "parseLoop (c0 # c1 # c2 # c3 # r) =
     bitsCombined 1 c0 c1 # bitsCombined 2 c1 c2 # bitsCombined 3 c2 c3 # parseLoop r"
| "parseLoop [c0, c1, c2] = [bitsCombined 1 c0 c1, bitsCombined 2 c1 c2]"
| "parseLoop [c0, c1] = [bitsCombined 1 c0 c1]"
| "parseLoop r = []"

definition Base64_parse :: "jsstring \<Rightarrow> byte list" where
  "Base64_parse s = parseLoop (takeWhile (\<lambda>c. c \<noteq> 0x3D) s)"

section \<open>EncodingUtils\<close>

text \<open>
  Inside \<open>encode\<close> and \<open>decode\<close> the variable \<open>result\<close> holds either a string or a
  crypto-js word array; the branches test \<open>typeof result === 'string'\<close>. A word array
  is represented by its significant bytes.
\<close>

datatype data = Str jsstring | WordArray "byte list"

text \<open>
  \<open>s.replace(/\+/g, '-').replace(/\//g, '_').replace(/=/g, '')\<close> and its inverse
  \<open>s.replace(/-/g, '+').replace(/_/g, '/')\<close> followed by the loop that appends \<open>=\<close>
  while the length is no multiple of 4.
\<close>

definition urlsafe :: "jsstring \<Rightarrow> jsstring" where
  "urlsafe s = removeAll 0x3D (replaceAll 0x2F 0x5F (replaceAll 0x2B 0x2D s))"

definition unurlsafe :: "jsstring \<Rightarrow> jsstring" where
  "unurlsafe s = padTo4 (replaceAll 0x5F 0x2F (replaceAll 0x2D 0x2B s))"

text \<open>
  \<open>EncodingUtils.encode\<close>. The loop runs over the chain from its last entry to its
  first. \<open>UTF8\<close> leaves the word array alone, \<open>HEX\<close> and \<open>BASE64\<close> stringify and parse
  again, \<open>BASE64_URLSAFE\<close> returns at once, any other name throws. After the loop a
  word array is rendered as standard Base64.
\<close>

fun encode_loop :: "platform \<Rightarrow> byte list \<Rightarrow> jsstring list \<Rightarrow> error + data" where
  "encode_loop P w [] = Inr (WordArray w)"
| "encode_loop P w (e # es) =
     (let encoding = toUpperCase P e in
      if encoding = str ''UTF8'' then encode_loop P w es
      else if encoding = str ''HEX'' then encode_loop P (Hex_parse P (Hex_stringify w)) es
      else if encoding = str ''BASE64'' then encode_loop P (Base64_parse (Base64_stringify w)) es
      else if encoding = str ''BASE64_URLSAFE'' then Inr (Str (urlsafe (Base64_stringify w)))
      else Inl (Error ''unsupported encoding''))"

definition EncodingUtils_encode :: "platform \<Rightarrow> data \<Rightarrow> jsstring list \<Rightarrow> error + jsstring" where
  "EncodingUtils_encode P d encodings =
     bindE (case d of Str s \<Rightarrow> Utf8_parse s | WordArray w \<Rightarrow> Inr w) (\<lambda>w.
     bindE (encode_loop P w (rev encodings)) (\<lambda>result.
       case result of Str s \<Rightarrow> Inr s | WordArray w' \<Rightarrow> Inr (Base64_stringify w')))"

text \<open>
  \<open>EncodingUtils.decode\<close>. The loop runs over the chain in order. \<open>UTF8\<close> turns a word
  array into text (and throws on malformed UTF-8), the other three parse a string into
  a word array and leave a word array alone. After the loop (\<open>decode_final\<close>) a word
  array is turned into text, and into Base64 when that throws.
\<close>

fun decode_loop :: "platform \<Rightarrow> data \<Rightarrow> jsstring list \<Rightarrow> error + data" where
  "decode_loop P result [] = Inr result"
| "decode_loop P result (e # es) =
     (let upperEncoding = toUpperCase P e in
      if upperEncoding = str ''UTF8'' then
        (case result of
           Str s \<Rightarrow> decode_loop P result es
         | WordArray w \<Rightarrow> bindE (Utf8_stringify w) (\<lambda>s. decode_loop P (Str s) es))
      else if upperEncoding = str ''HEX'' then
        (case result of
           Str s \<Rightarrow> decode_loop P (WordArray (Hex_parse P s)) es
         | WordArray w \<Rightarrow> decode_loop P result es)
      else if upperEncoding = str ''BASE64'' then
        (case result of
           Str s \<Rightarrow> decode_loop P (WordArray (Base64_parse s)) es
         | WordArray w \<Rightarrow> decode_loop P result es)
      else if upperEncoding = str ''BASE64_URLSAFE'' then
        (case result of
           Str s \<Rightarrow> decode_loop P (WordArray (Base64_parse (unurlsafe s))) es
         | WordArray w \<Rightarrow> decode_loop P result es)
      else Inl (Error ''unsupported encoding''))"

definition decode_final :: "data \<Rightarrow> jsstring" where
  "decode_final result =
     (case result of
        Str s \<Rightarrow> s
      | WordArray w \<Rightarrow>
          (case Utf8_stringify w of Inr s \<Rightarrow> s | Inl e \<Rightarrow> Base64_stringify w))"

definition EncodingUtils_decode :: "platform \<Rightarrow> jsstring \<Rightarrow> jsstring list \<Rightarrow> error + jsstring" where
  "EncodingUtils_decode P d encodings =
     bindE (decode_loop P (Str d) encodings) (\<lambda>result. Inr (decode_final result))"

text \<open>\<open>EncodingUtils.processPlaintextDecoding\<close>, applied to the text a cipher returns.\<close>

definition processPlaintextDecoding :: "platform \<Rightarrow> jsstring \<Rightarrow> jsstring list \<Rightarrow> error + jsstring" where
  "processPlaintextDecoding P plaintext plainEncoding =
     (if plainEncoding \<noteq> [] \<and> str ''UTF8'' \<notin> set plainEncoding
      then EncodingUtils_encode P (Str plaintext) plainEncoding
      else Inr plaintext)"

section \<open>Cipher configurations\<close>

text \<open>
  A stored configuration is a loosely typed object; a field that may be missing is an
  option. In key material a missing \<open>encoding\<close> and an empty one take the same branch
  everywhere, so it is a list.
\<close>

record key_material =
  val :: jsstring
  encoding :: "jsstring list"

record config =
  name :: jsstring
  algorithm :: "jsstring option"
  algorithmType :: "jsstring option"
  mode :: "jsstring option"
  padding :: "jsstring option"
  key :: "key_material option"
  iv :: "key_material option"
  publicKey :: "key_material option"
  privateKey :: "key_material option"
  plainEncoding :: "jsstring list option"
  cipherEncoding :: "jsstring list option"

text \<open>
  The key and the initialisation vector: \<open>key.value\<close> throws a TypeError without a key
  object, \<open>iv?.value || ''\<close> does not; a non-empty \<open>encoding\<close> sends the value through
  \<open>EncodingUtils.decode\<close>; the text is then read as UTF-8 bytes.
\<close>

definition parsedKey :: "platform \<Rightarrow> config \<Rightarrow> error + jsstring" where
  "parsedKey P cfg =
     (case key cfg of
        None \<Rightarrow> Inl TypeError
      | Some k \<Rightarrow> if encoding k \<noteq> [] then EncodingUtils_decode P (val k) (encoding k)
                  else Inr (val k))"

definition parsedIv :: "platform \<Rightarrow> config \<Rightarrow> error + jsstring" where
  "parsedIv P cfg =
     (case iv cfg of
        None \<Rightarrow> Inr []
      | Some v \<Rightarrow> if encoding v \<noteq> [] then EncodingUtils_decode P (val v) (encoding v)
                  else Inr (val v))"

section \<open>AESCipher\<close>

definition modeOf :: "config \<Rightarrow> jsstring" where
  "modeOf cfg = (case mode cfg of None \<Rightarrow> str ''CBC'' | Some m \<Rightarrow> m)"

definition paddingOf :: "config \<Rightarrow> jsstring" where
  "paddingOf cfg = (case padding cfg of None \<Rightarrow> str ''Pkcs7'' | Some p \<Rightarrow> p)"

definition orElse :: "'a option \<Rightarrow> 'a \<Rightarrow> 'a" where
  "orElse x d = (case x of None \<Rightarrow> d | Some y \<Rightarrow> y)"

text \<open>
  The options object \<open>AESCipher.encrypt\<close> hands to \<open>CryptoJS.AES.encrypt\<close>: the switch
  on the upper-cased mode gives ECB no \<open>iv\<close>, gives CBC, CFB, OFB and CTR the \<open>iv\<close>, and
  falls back to CBC with Pkcs7 for any other mode. The padding is looked up under the
  upper-cased name.
\<close>

definition encryptOptions :: "platform \<Rightarrow> config \<Rightarrow> byte list \<Rightarrow> aes_options" where
  "encryptOptions P cfg ivWordArray =
     (let modeUpper = toUpperCase P (modeOf cfg);
          cryptoMode = orElse (CryptoJS_mode modeUpper) CBC;
          cryptoPadding = orElse (CryptoJS_pad (toUpperCase P (paddingOf cfg))) Pkcs7
      in if modeUpper = str ''ECB'' then
           \<lparr>opt_mode = cryptoMode, opt_padding = cryptoPadding, opt_iv = None\<rparr>
         else if modeUpper \<in> set [str ''CBC'', str ''CFB'', str ''OFB'', str ''CTR''] then
           \<lparr>opt_mode = cryptoMode, opt_padding = cryptoPadding, opt_iv = Some ivWordArray\<rparr>
         else
           \<lparr>opt_mode = CBC, opt_padding = Pkcs7, opt_iv = Some ivWordArray\<rparr>)"

definition AESCipher_encrypt :: "platform \<Rightarrow> jsstring \<Rightarrow> config \<Rightarrow> error + jsstring" where
  "AESCipher_encrypt P plaintext cfg =
     bindE (parsedKey P cfg) (\<lambda>k.
     bindE (parsedIv P cfg) (\<lambda>v.
     bindE (Utf8_parse k) (\<lambda>keyWordArray.
     bindE (Utf8_parse v) (\<lambda>ivWordArray.
       AES_encrypt P plaintext keyWordArray (encryptOptions P cfg ivWordArray)))))"

text \<open>
  The options object of \<open>AESCipher.decrypt\<close>: \<open>usePadding\<close> holds for ECB and CBC only,
  every other mode gets \<open>CryptoJS.pad.NoPadding\<close>; the \<open>iv\<close> is added for CBC, CFB, OFB
  and CTR. The padding is looked up under the upper-cased name with \<open>PADDING\<close> removed.
\<close>

definition decryptOptions :: "platform \<Rightarrow> config \<Rightarrow> byte list \<Rightarrow> aes_options" where
  "decryptOptions P cfg ivWordArray =
     (let modeUpper = toUpperCase P (modeOf cfg);
          paddingUpper = removeFirst (str ''PADDING'') (toUpperCase P (paddingOf cfg));
          cryptoMode = orElse (CryptoJS_mode modeUpper) CBC;
          cryptoPadding = orElse (CryptoJS_pad paddingUpper) Pkcs7;
          usePadding = (modeUpper \<in> set [str ''ECB'', str ''CBC''])
      in \<lparr>opt_mode = cryptoMode,
          opt_padding = (if usePadding then cryptoPadding else NoPadding),
          opt_iv = (if modeUpper \<in> set [str ''CBC'', str ''CFB'', str ''OFB'', str ''CTR'']
                    then Some ivWordArray else None)\<rparr>)"

text \<open>
  The loop that looks for trailing zero bytes: \<open>i\<close> runs from \<open>sigBytes - 1\<close> down;
  a zero byte at \<open>i\<close> sets \<open>actualLength = i\<close>, the first other byte stops the loop.
  The argument \<open>n\<close> is \<open>i + 1\<close>.
\<close>

fun actualLength :: "byte list \<Rightarrow> nat \<Rightarrow> nat" where
  "actualLength bytes 0 = 0"
| "actualLength bytes (Suc i) = (if bytes ! i = 0 then actualLength bytes i else Suc i)"

definition validBytes :: "byte list \<Rightarrow> byte list" where
  "validBytes bytes = take (actualLength bytes (length bytes)) bytes"

definition AESCipher_decrypt :: "platform \<Rightarrow> jsstring \<Rightarrow> config \<Rightarrow> error + jsstring" where
  "AESCipher_decrypt P ciphertext cfg =
     bindE (parsedKey P cfg) (\<lambda>k.
     bindE (parsedIv P cfg) (\<lambda>v.
     bindE (Utf8_parse k) (\<lambda>keyWordArray.
     bindE (Utf8_parse v) (\<lambda>ivWordArray.
     bindE (AES_decrypt P ciphertext keyWordArray (decryptOptions P cfg ivWordArray)) (\<lambda>decrypted.
       if toUpperCase P (modeOf cfg) = str ''CTR''
       then Inr (TextDecoder_decode (validBytes decrypted))
       else Utf8_stringify decrypted)))))"

section \<open>SM4Cipher and RSACipher\<close>

definition hex32 :: "byte list \<Rightarrow> jsstring" where
  "hex32 w = take 32 (padEnd 32 0x30 (Hex_stringify w))"

definition SM4Cipher_decrypt :: "platform \<Rightarrow> jsstring \<Rightarrow> config \<Rightarrow> error + jsstring" where
  "SM4Cipher_decrypt P ciphertext cfg =
     bindE (parsedKey P cfg) (\<lambda>k.
     bindE (parsedIv P cfg) (\<lambda>v.
     bindE (Utf8_parse k) (\<lambda>keyBytes.
     bindE (if v \<noteq> [] then bindE (Utf8_parse v) (\<lambda>b. Inr (hex32 b)) else Inr []) (\<lambda>ivHex.
       let modeUpper = toUpperCase P (modeOf cfg);
           sm4Mode = (if modeUpper = str ''ECB'' then str ''ecb'' else str ''cbc'')
       in sm4_decrypt P ciphertext (hex32 keyBytes)
            \<lparr>sm4_mode = sm4Mode, sm4_iv = (if ivHex \<noteq> [] then Some ivHex else None)\<rparr>))))"

definition RSACipher_decrypt :: "platform \<Rightarrow> jsstring \<Rightarrow> config \<Rightarrow> error + jsstring" where
  "RSACipher_decrypt P ciphertext cfg =
     (let plainEnc = orElse (plainEncoding cfg) [str ''UTF8''];
          cipherEnc = orElse (cipherEncoding cfg) [str ''BASE64'']
      in case privateKey cfg of
           None \<Rightarrow> Inl (Error ''RSA decryption needs a private key'')
         | Some pk \<Rightarrow>
             if val pk = [] then Inl (Error ''RSA decryption needs a private key'')
             else
               let processedCiphertext =
                     (if str ''HEX'' \<in> set cipherEnc
                      then Base64_stringify (Hex_parse P ciphertext)
                      else if str ''BASE64_URLSAFE'' \<in> set cipherEnc then unurlsafe ciphertext
                      else ciphertext)
               in bindE (JSEncrypt_decrypt P (val pk) processedCiphertext) (\<lambda>decrypted.
                    case decrypted of
                      None \<Rightarrow> Inl (Error ''RSA decryption failed'')
                    | Some d \<Rightarrow>
                        if plainEnc \<noteq> [] \<and> str ''UTF8'' \<notin> set plainEnc
                        then EncodingUtils_encode P (Str d) plainEnc
                        else Inr d))"

section \<open>CipherUtils.decrypt\<close>

text \<open>
  The cipher text is pre-processed only for a chain of more than one entry, from the
  last entry to the first; then the algorithm named before the first \<open>/\<close> is called
  with the configuration as stored, and the plain text chain is applied to its result.
\<close>

fun preprocess :: "platform \<Rightarrow> jsstring \<Rightarrow> jsstring list \<Rightarrow> error + jsstring" where
  "preprocess P processedCiphertext [] = Inr processedCiphertext"
| "preprocess P processedCiphertext (e # es) =
     (let up = toUpperCase P e in
      if up = str ''BASE64'' then preprocess P processedCiphertext es
      else if up = str ''HEX'' then
        preprocess P (Base64_stringify (Hex_parse P processedCiphertext)) es
      else if up = str ''BASE64_URLSAFE'' then preprocess P (unurlsafe processedCiphertext) es
      else bindE (EncodingUtils_decode P processedCiphertext [e]) (\<lambda>r. preprocess P r es))"

definition CipherUtils_decrypt :: "platform \<Rightarrow> jsstring \<Rightarrow> config \<Rightarrow> error + jsstring" where
  "CipherUtils_decrypt P ciphertext cfg =
     (let plainEnc = orElse (plainEncoding cfg) [str ''UTF8''];
          cipherEnc = orElse (cipherEncoding cfg) [str ''BASE64'']
      in case algorithm cfg of
           None \<Rightarrow> Inl TypeError
         | Some alg \<Rightarrow>
             let mainAlgorithm = toUpperCase P (case js_split 0x2F alg of [] \<Rightarrow> [] | a # _ \<Rightarrow> a) in
             bindE (if 1 < length cipherEnc then preprocess P ciphertext (rev cipherEnc)
                    else Inr ciphertext) (\<lambda>processedCiphertext.
             bindE (if mainAlgorithm = str ''AES'' then AESCipher_decrypt P processedCiphertext cfg
                    else if mainAlgorithm = str ''SM4'' then
                      SM4Cipher_decrypt P
                        (if str ''HEX'' \<notin> set cipherEnc
                         then Hex_stringify (Base64_parse processedCiphertext)
                         else processedCiphertext) cfg
                    else if mainAlgorithm = str ''RSA'' then RSACipher_decrypt P processedCiphertext cfg
                    else Inl (Error ''unsupported algorithm'')) (\<lambda>plaintext.
               processPlaintextDecoding P plaintext plainEnc)))"

section \<open>The heuristic analyzer\<close>

text \<open>
  \<open>EXTENDED_PRINTABLE_REGEX\<close> is one character class; \<open>text.match\<close> with the global
  flag returns one match per code unit in the class. The ratio is a quotient of two
  lengths and is compared with 0.5 exactly.
\<close>

definition inRanges :: "(nat \<times> nat) list \<Rightarrow> nat \<Rightarrow> bool" where
  "inRanges rs c = list_ex (\<lambda>(lo, hi). lo \<le> c \<and> c \<le> hi) rs"

definition EXTENDED_PRINTABLE :: "(nat \<times> nat) list" where
  "EXTENDED_PRINTABLE =
     [(0x20, 0x7E), (0xA0, 0xFF), (0x2000, 0x206F), (0x20A0, 0x20CF), (0x2100, 0x214F),
      (0x2200, 0x22FF), (0x2300, 0x23FF), (0x2400, 0x243F), (0x2500, 0x257F), (0x2580, 0x259F),
      (0x25A0, 0x25FF), (0x2600, 0x26FF), (0x2700, 0x27BF), (0x2800, 0x28FF), (0x2900, 0x297F),
      (0x2980, 0x29FF), (0x2A00, 0x2AFF), (0x2B00, 0x2BFF), (0x2C00, 0x2C5F), (0x2C60, 0x2C7F),
      (0x2C80, 0x2CFF), (0x2D00, 0x2D2F), (0x2D30, 0x2D7F), (0x2D80, 0x2DDF), (0x2E00, 0x2E7F),
      (0x2E80, 0x2EFF), (0x2F00, 0x2FDF), (0x2FF0, 0x2FFF), (0x3000, 0x303F), (0x3040, 0x309F),
      (0x30A0, 0x30FF), (0x3100, 0x312F), (0x3130, 0x318F), (0x3190, 0x319F), (0x31A0, 0x31BF),
      (0x31C0, 0x31EF), (0x31F0, 0x31FF), (0x3200, 0x32FF), (0x3300, 0x33FF), (0x3400, 0x4DBF),
      (0x4DC0, 0x4DFF), (0x4E00, 0x9FFF), (0xA000, 0xA48F), (0xA490, 0xA4CF), (0xAC00, 0xD7AF),
      (0xF900, 0xFAFF), (0xFE10, 0xFE1F), (0xFE30, 0xFE4F), (0xFE50, 0xFE6F), (0xFF00, 0xFFEF)]"

record analysis =
  totalChars :: nat
  printableChars :: nat
  printableRatio :: real
  isReadable :: bool

definition analyzePrintableCharacters :: "jsstring \<Rightarrow> analysis" where
  "analyzePrintableCharacters text =
     (if text = [] then
        \<lparr>totalChars = 0, printableChars = 0, printableRatio = 0, isReadable = False\<rparr>
      else
        let total = length text;
            printable = length (filter (inRanges EXTENDED_PRINTABLE) text);
            ratio = (if 0 < total then real printable / real total else 0)
        in \<lparr>totalChars = total, printableChars = printable, printableRatio = ratio,
            isReadable = (1 / 2 \<le> ratio)\<rparr>)"

section \<open>Regular expressions\<close>

text \<open>
  The patterns of the classifier use character classes, concatenation, alternation and
  bounded or unbounded repetition, and are anchored at both ends. \<open>RegExp.test\<close> then
  decides membership of the whole string in the language of the pattern, which the
  derivative of the pattern computes one code unit at a time.
\<close>

datatype rx = Void | Empty | Class "(nat \<times> nat) list" | Alt rx rx | Seq rx rx | Star rx

fun nullable :: "rx \<Rightarrow> bool" where
  "nullable Void = False"
| "nullable Empty = True"
| "nullable (Class rs) = False"
| "nullable (Alt r s) = (nullable r \<or> nullable s)"
| "nullable (Seq r s) = (nullable r \<and> nullable s)"
| "nullable (Star r) = True"

fun alt :: "rx \<Rightarrow> rx \<Rightarrow> rx" where
  "alt Void s = s"
| "alt r Void = r"
| "alt r s = Alt r s"

fun seq :: "rx \<Rightarrow> rx \<Rightarrow> rx" where
  "seq Void s = Void"
| "seq Empty s = s"
| "seq r s = Seq r s"

fun deriv :: "nat \<Rightarrow> rx \<Rightarrow> rx" where
  "deriv c Void = Void"
| "deriv c Empty = Void"
| "deriv c (Class rs) = (if inRanges rs c then Empty else Void)"
| "deriv c (Alt r s) = alt (deriv c r) (deriv c s)"
| "deriv c (Seq r s) =
     (if nullable r then alt (seq (deriv c r) s) (deriv c s) else seq (deriv c r) s)"
| "deriv c (Star r) = seq (deriv c r) (Star r)"

fun test :: "rx \<Rightarrow> jsstring \<Rightarrow> bool" where
  "test r [] = nullable r"
| "test r (c # cs) = test (deriv c r) cs"

text \<open>\<open>r?\<close>, \<open>r+\<close>, \<open>r{n}\<close>, \<open>r{0,n}\<close> and \<open>r{m,n}\<close>; a literal code unit; a literal string.\<close>

definition Opt :: "rx \<Rightarrow> rx" where
  "Opt r = Alt r Empty"

definition Plus :: "rx \<Rightarrow> rx" where
  "Plus r = Seq r (Star r)"

primrec rep :: "nat \<Rightarrow> rx \<Rightarrow> rx" where
  "rep 0 r = Empty"
| "rep (Suc n) r = Seq r (rep n r)"

primrec rep_upto :: "nat \<Rightarrow> rx \<Rightarrow> rx" where
  "rep_upto 0 r = Empty"
| "rep_upto (Suc n) r = Opt (Seq r (rep_upto n r))"

definition rep_between :: "nat \<Rightarrow> nat \<Rightarrow> rx \<Rightarrow> rx" where
  "rep_between m n r = Seq (rep m r) (rep_upto (n - m) r)"

definition Lit :: "nat \<Rightarrow> rx" where
  "Lit c = Class [(c, c)]"

text \<open>A pattern without anchors is searched for anywhere in the string.\<close>

definition anywhere :: "rx \<Rightarrow> rx" where
  "anywhere r = Seq (Star (Class [(0, 0xFFFF)])) (Seq r (Star (Class [(0, 0xFFFF)])))"

subsection \<open>The patterns of the classifier\<close>

definition digit :: rx where
  "digit = Class [(0x30, 0x39)]"

definition hexdig :: rx where
  "hexdig = Class [(0x30, 0x39), (0x61, 0x66), (0x41, 0x46)]"

definition alnum :: rx where
  "alnum = Class [(0x61, 0x7A), (0x41, 0x5A), (0x30, 0x39)]"

definition space :: rx where
  "space = Class [(0x09, 0x0D), (0x20, 0x20), (0xA0, 0xA0), (0x1680, 0x1680), (0x2000, 0x200A),
                  (0x2028, 0x2029), (0x202F, 0x202F), (0x205F, 0x205F), (0x3000, 0x3000),
                  (0xFEFF, 0xFEFF)]"

text \<open>\<open>(25[0-5]|2[0-4][0-9]|[01]?[0-9][0-9]?)\<close>\<close>

definition octet :: rx where
  "octet =
     Alt (Seq (Lit 0x32) (Seq (Lit 0x35) (Class [(0x30, 0x35)])))
    (Alt (Seq (Lit 0x32) (Seq (Class [(0x30, 0x34)]) digit))
         (Seq (Opt (Class [(0x30, 0x31)])) (Seq digit (Opt digit))))"

definition ipv4Pattern :: rx where
  "ipv4Pattern = Seq (rep 3 (Seq octet (Lit 0x2E))) octet"

text \<open>\<open>/^[\d\.]+$/\<close>\<close>

definition digitsAndDots :: rx where
  "digitsAndDots = Plus (Class [(0x30, 0x39), (0x2E, 0x2E)])"

definition h4 :: rx where
  "h4 = rep_between 1 4 hexdig"

definition h4c :: rx where
  "h4c = Seq h4 (Lit 0x3A)"

definition ch4 :: rx where
  "ch4 = Seq (Lit 0x3A) h4"

definition ipv6FullRegex :: rx where
  "ipv6FullRegex = Seq (rep 7 h4c) h4"

definition ipv6CompressedRegex :: rx where
  "ipv6CompressedRegex =
     Alt (Seq (rep_between 1 7 h4c) (Lit 0x3A))
    (Alt (Seq (Lit 0x3A) (Alt (rep_between 1 7 h4c) (Lit 0x3A)))
    (Alt (Seq (rep_between 1 6 h4c) ch4)
    (Alt (Seq (rep_between 1 5 h4c) (rep_between 1 2 ch4))
    (Alt (Seq (rep_between 1 4 h4c) (rep_between 1 3 ch4))
    (Alt (Seq (rep_between 1 3 h4c) (rep_between 1 4 ch4))
    (Alt (Seq (rep_between 1 2 h4c) (rep_between 1 5 ch4))
    (Alt (Seq h4c (rep_between 1 6 ch4))
         (Seq (Lit 0x3A) (Alt (rep_between 1 7 ch4) (Lit 0x3A))))))))))"

text \<open>\<open>\/([1-9]|[12][0-9]|3[0-2])\<close> after the dotted quad.\<close>

definition cidrPattern :: rx where
  "cidrPattern =
     Seq ipv4Pattern (Seq (Lit 0x2F)
       (Alt (Class [(0x31, 0x39)])
       (Alt (Seq (Class [(0x31, 0x32)]) digit)
            (Seq (Lit 0x33) (Class [(0x30, 0x32)])))))"

text \<open>\<open>/^([0-9a-fA-F]{1,4}(:[0-9a-fA-F]{1,4}){0,7}|:|::)(\/(1[0-2][0-8]|[1-9][0-9]|[0-9]))$/\<close>\<close>

definition ipv6CidrPattern :: rx where
  "ipv6CidrPattern =
     Seq (Alt (Seq h4 (rep_upto 7 ch4)) (Alt (Lit 0x3A) (Seq (Lit 0x3A) (Lit 0x3A))))
         (Seq (Lit 0x2F)
            (Alt (Seq (Lit 0x31) (Seq (Class [(0x30, 0x32)]) (Class [(0x30, 0x38)])))
            (Alt (Seq (Class [(0x31, 0x39)]) digit)
                 digit)))"

text \<open>\<open>[\d\*\/,\-\?]+\<close> and the three cron patterns with 5, 6 and 7 fields.\<close>

definition cronField :: rx where
  "cronField = Plus (Class [(0x30, 0x39), (0x2A, 0x2A), (0x2F, 0x2F), (0x2C, 0x2C), (0x2D, 0x2D), (0x3F, 0x3F)])"

definition cronPattern :: "nat \<Rightarrow> rx" where
  "cronPattern n = Seq (rep n (Seq cronField (Plus space))) cronField"

definition cronPatterns :: "rx list" where
  "cronPatterns = [cronPattern 4, cronPattern 5, cronPattern 6]"

text \<open>\<open>/^\d{10}$|^\d{13}$/\<close> and \<open>/^\d{4}-\d{2}-\d{2}(\s+\d{2}:\d{2}:\d{2})?$/\<close>\<close>

definition timestampPattern :: rx where
  "timestampPattern = Alt (rep 10 digit) (rep 13 digit)"

definition dateTimePattern :: rx where
  "dateTimePattern =
     Seq (rep 4 digit) (Seq (Lit 0x2D) (Seq (rep 2 digit) (Seq (Lit 0x2D) (Seq (rep 2 digit)
       (Opt (Seq (Plus space) (Seq (rep 2 digit) (Seq (Lit 0x3A) (Seq (rep 2 digit)
            (Seq (Lit 0x3A) (rep 2 digit)))))))))))"

text \<open>\<open>/^[A-Za-z0-9+/]*={0,2}$/\<close>\<close>

definition base64Pattern :: rx where
  "base64Pattern =
     Seq (Star (Class [(0x41, 0x5A), (0x61, 0x7A), (0x30, 0x39), (0x2B, 0x2B), (0x2F, 0x2F)]))
         (rep_upto 2 (Lit 0x3D))"

text \<open>\<open>/%[0-9A-Fa-f]{2}/\<close>, without anchors.\<close>

definition urlEncodedPattern :: rx where
  "urlEncodedPattern = anywhere (Seq (Lit 0x25) (rep 2 hexdig))"

text \<open>
  \<open>/^[a-zA-Z0-9]([a-zA-Z0-9\-]{0,61}[a-zA-Z0-9])?(\.[a-zA-Z0-9]([a-zA-Z0-9\-]{0,61}[a-zA-Z0-9])?)*\.[a-zA-Z]{2,}$/\<close>
\<close>

definition label :: rx where
  "label = Seq alnum (Opt (Seq (rep_upto 61 (Class [(0x61, 0x7A), (0x41, 0x5A), (0x30, 0x39), (0x2D, 0x2D)])) alnum))"

definition domainPattern :: rx where
  "domainPattern =
     Seq label (Seq (Star (Seq (Lit 0x2E) label))
       (Seq (Lit 0x2E) (Seq (rep 2 (Class [(0x61, 0x7A), (0x41, 0x5A)]))
                            (Star (Class [(0x61, 0x7A), (0x41, 0x5A)])))))"

section \<open>The classifier\<close>

text \<open>
  \<open>try { m } catch (e) { h }\<close>. The configuration store is read through
  \<open>StorageUtils.getItem('keyConfigs')\<close>: the read may fail (\<open>Inl\<close>), the key may be absent
  (\<open>None\<close>, for which \<open>result.keyConfigs || []\<close> is the empty list), or it holds the list
  of configurations.
\<close>

definition tryCatch :: "error + 'a \<Rightarrow> (error \<Rightarrow> error + 'a) \<Rightarrow> error + 'a" where
  "tryCatch m h = (case m of Inl e \<Rightarrow> h e | Inr x \<Rightarrow> Inr x)"

type_synonym storage = "error + config list option"

text \<open>\<open>isLikelyRSACipher\<close>\<close>

definition hasRSAConfig :: "platform \<Rightarrow> config list \<Rightarrow> bool" where
  "hasRSAConfig P configs =
     list_ex (\<lambda>config.
        (case algorithm config of None \<Rightarrow> False
         | Some a \<Rightarrow> js_includes (toUpperCase P a) (str ''RSA''))
        \<or> (case algorithmType config of None \<Rightarrow> False
            | Some t \<Rightarrow> toUpperCase P t = str ''RSA'')) configs"

definition isLikelyRSACipher :: "platform \<Rightarrow> storage \<Rightarrow> jsstring \<Rightarrow> error + bool" where
  "isLikelyRSACipher P store content =
     (let trimmedContent = trim content in
      if \<not> test base64Pattern trimmedContent then Inr False
      else if length trimmedContent < 50 then Inr False
      else
        let isTypicalLength = (length trimmedContent \<in> set [344, 172, 256, 128])
        in bindE
             (tryCatch
                (bindE store (\<lambda>result.
                   let configs = orElse result []
                   in if hasRSAConfig P configs \<and> (isTypicalLength \<or> 100 < length trimmedContent)
                      then Inr (Some True) else Inr None))
                (\<lambda>err. Inr None))
             (\<lambda>r. case r of Some b \<Rightarrow> Inr b | None \<Rightarrow> Inr False))"

text \<open>
  The speculative decryption sweep. \<open>judge\<close> is the body of the inner \<open>try\<close> after
  \<open>CipherUtils.decrypt\<close> has returned: \<open>Some\<close> is the returned tag, \<open>None\<close> falls through to
  the next configuration, as the \<open>catch\<close> does with \<open>continue\<close>; \<open>attempt\<close> is the whole
  \<open>try\<close> statement for one configuration. The second component of the result of \<open>sweep\<close>
  lists the configurations on which \<open>CipherUtils.decrypt\<close> was called.
\<close>

definition isCFBMode :: "platform \<Rightarrow> config \<Rightarrow> bool" where
  "isCFBMode P config =
     ((case algorithm config of None \<Rightarrow> False
       | Some a \<Rightarrow> js_includes (toUpperCase P a) (str ''CFB''))
      \<or> (case mode config of None \<Rightarrow> False | Some m \<Rightarrow> toUpperCase P m = str ''CFB'')
      \<or> (case algorithm config of None \<Rightarrow> False
          | Some a \<Rightarrow> js_includes (toUpperCase P a) (str ''CTR''))
      \<or> (case mode config of None \<Rightarrow> False | Some m \<Rightarrow> toUpperCase P m = str ''CTR''))"

definition judge :: "platform \<Rightarrow> config \<Rightarrow> jsstring \<Rightarrow> jsstring \<Rightarrow> jsstring option" where
  "judge P config trimmedContent decrypted =
     (if decrypted \<noteq> [] \<and> decrypted \<noteq> trimmedContent then
        (if isCFBMode P config then
           (if isReadable (analyzePrintableCharacters decrypted) then Some (str ''encrypted'')
            else None)
         else Some (str ''encrypted''))
      else None)"

definition attempt :: "platform \<Rightarrow> jsstring \<Rightarrow> config \<Rightarrow> error + jsstring option" where
  "attempt P trimmedContent config =
     tryCatch
       (bindE (CipherUtils_decrypt P trimmedContent config)
          (\<lambda>decrypted. Inr (judge P config trimmedContent decrypted)))
       (\<lambda>err. Inr None)"

fun sweep :: "platform \<Rightarrow> jsstring \<Rightarrow> config list \<Rightarrow> error + (jsstring option \<times> config list)" where
  "sweep P trimmedContent [] = Inr (None, [])"
| "sweep P trimmedContent (config # configs) =
     bindE (attempt P trimmedContent config)
       (\<lambda>r. case r of
               Some t \<Rightarrow> Inr (Some t, [config])
             | None \<Rightarrow>
                 bindE (sweep P trimmedContent configs)
                   (\<lambda>(r', tried). Inr (r', config # tried)))"

record detection =
  tag :: jsstring
  attempts :: "config list"

definition ret :: "string \<Rightarrow> config list \<Rightarrow> error + detection" where
  "ret t tried = Inr \<lparr>tag = str t, attempts = tried\<rparr>"

text \<open>
  \<open>detectContentType\<close> is a cascade of checks, each returning at its first match. It is
  written here in four pieces, in the order of the source: the checks on the shape of
  the text (\<open>structuralType\<close>), the call of \<open>isLikelyRSACipher\<close>, the block
  \<open>if (trimmedContent.length > 10) { try { ... } catch (err) { ... } }\<close> that holds the sweep
  (\<open>sweepBlock\<close>), and the checks after it, among them the \<open>try\<close> around
  \<open>decodeURIComponent\<close> (\<open>decodesToUrl\<close>).
\<close>

definition structuralType :: "jsstring \<Rightarrow> string option" where
  "structuralType trimmedContent =
     (if test ipv4Pattern trimmedContent then Some ''ip''
      else if 0x3A \<in> set trimmedContent \<and> \<not> test digitsAndDots trimmedContent
              \<and> (test ipv6FullRegex trimmedContent \<or> test ipv6CompressedRegex trimmedContent)
        then Some ''ipv6''
      else if 0x2F \<in> set trimmedContent \<and> test cidrPattern trimmedContent then Some ''cidr''
      else if 0x3A \<in> set trimmedContent \<and> 0x2F \<in> set trimmedContent
              \<and> test ipv6CidrPattern trimmedContent
        then Some ''ipv6cidr''
      else if list_ex (\<lambda>pattern. test pattern trimmedContent) cronPatterns then Some ''cron''
      else if test timestampPattern trimmedContent then Some ''timestamp''
      else if test dateTimePattern trimmedContent then Some ''datetime''
      else None)"

definition sweepBlock :: "platform \<Rightarrow> storage \<Rightarrow> jsstring \<Rightarrow> error + (jsstring option \<times> config list)" where
  "sweepBlock P store trimmedContent =
     (if 10 < length trimmedContent then
        tryCatch
          (bindE store (\<lambda>result.
             let configs = orElse result []
             in if 0 < length configs then sweep P trimmedContent configs
                else Inr (None, [])))
          (\<lambda>err. Inr (None, []))
      else Inr (None, []))"

definition decodesToUrl :: "platform \<Rightarrow> jsstring \<Rightarrow> error + bool" where
  "decodesToUrl P trimmedContent =
     (if test urlEncodedPattern trimmedContent then
        tryCatch
          (bindE (decodeURIComponent P trimmedContent)
             (\<lambda>decoded. Inr (startsWith (toLowerCase P decoded) (str ''http''))))
          (\<lambda>e. Inr False)
      else Inr False)"

definition detectContentType :: "platform \<Rightarrow> storage \<Rightarrow> jsstring \<Rightarrow> error + detection" where
  "detectContentType P store content =
     (let trimmedContent = trim content in
      case structuralType trimmedContent of
        Some t \<Rightarrow> ret t []
      | None \<Rightarrow>
          bindE (isLikelyRSACipher P store trimmedContent) (\<lambda>rsa.
          if rsa then ret ''encrypted'' []
          else
            bindE (sweepBlock P store trimmedContent) (\<lambda>(found, tried).
              case found of
                Some t \<Rightarrow> Inr \<lparr>tag = t, attempts = tried\<rparr>
              | None \<Rightarrow>
                  if startsWith (toLowerCase P trimmedContent) (str ''http'') then ret ''url'' tried
                  else
                    bindE (decodesToUrl P trimmedContent) (\<lambda>decoded.
                      if decoded then ret ''url'' tried
                      else if test domainPattern trimmedContent then ret ''domain'' tried
                      else if test base64Pattern trimmedContent
                              \<and> length trimmedContent mod 4 = 0 \<and> 10 < length trimmedContent
                        then ret ''encode'' tried
                      else ret ''encode'' tried))))"

text \<open>The tags that occur in the \<open>return\<close> statements of \<open>detectContentType\<close>.\<close>

definition tags :: "jsstring set" where
  "tags = {str ''ip'', str ''ipv6'', str ''cidr'', str ''ipv6cidr'', str ''cron'', str ''timestamp'',
           str ''datetime'', str ''url'', str ''domain'', str ''encrypted'', str ''encode''}"

text \<open>The effect in \<open>PopUp\<close> that calls the classifier on every change of the content.\<close>

definition detectType :: "platform \<Rightarrow> storage \<Rightarrow> jsstring \<Rightarrow> error + detection" where
  "detectType P store content =
     (if content = [] \<or> trim content = [] then ret ''encode'' []
      else detectContentType P store content)"

section \<open>decodeHex of the encoding tool\<close>







section \<open>Worked examples\<close>

text \<open>
  An instance of the parameters, for evaluating examples. In a stream mode a block cipher
  XORs the cipher text with a key stream; \<open>example_platform\<close> is the case where the key
  stream is zero, so that decrypting returns the bytes of the Base64 cipher text and
  encrypting returns the Base64 of the plain text. The other primitives always fail.
  Outside ASCII the case mappings are the identity, but for the long s and the dotless i,
  whose upper case is \<open>S\<close> and \<open>I\<close>, and the Kelvin sign, whose lower case is \<open>k\<close>.
\<close>

definition example_platform :: platform where
  "example_platform =
     \<lparr>Uppercase_Mapping =
        (\<lambda>cp. if cp = 0x17F then [0x53] else if cp = 0x131 then [0x49] else [cp]),
      Lowercase_Mapping = (\<lambda>before cp after. if cp = 0x212A then [0x6B] else [cp]),
      Hex_parse_other = (\<lambda>s. []),
      AES_encrypt = (\<lambda>plaintext k opts. bindE (Utf8_parse plaintext) (\<lambda>b. Inr (Base64_stringify b))),
      AES_decrypt = (\<lambda>ciphertext k opts. Inr (Base64_parse ciphertext)),
      sm4_decrypt = (\<lambda>ciphertext k opts. Inl (Error ''sm4'')),
      JSEncrypt_decrypt = (\<lambda>k ciphertext. Inr None),
      decodeURIComponent = (\<lambda>s. Inl URIError)\<rparr>"

definition example_key :: key_material where
  "example_key = \<lparr>val = str ''0123456789abcdef'', encoding = [str ''UTF8'']\<rparr>"

text \<open>A symmetric profile \<open>AES/m/NoPadding\<close> and an asymmetric one, as the option page stores them.\<close>

definition aes_profile :: "string \<Rightarrow> config" where
  "aes_profile m =
     \<lparr>name = str ''aes'', algorithm = Some (str ''AES/'' @ str m @ str ''/NoPadding''),
      algorithmType = Some (str ''AES''), mode = Some (str m), padding = Some (str ''NoPadding''),
      key = Some example_key, iv = Some example_key, publicKey = None, privateKey = None,
      plainEncoding = Some [str ''UTF8''], cipherEncoding = Some [str ''BASE64'']\<rparr>"

definition rsa_profile :: config where
  "rsa_profile =
     \<lparr>name = str ''rsa'', algorithm = Some (str ''RSA''), algorithmType = Some (str ''RSA''),
      mode = None, padding = None, key = None, iv = None,
      publicKey = Some \<lparr>val = str ''MIIB'', encoding = [str ''UTF8'']\<rparr>,
      privateKey = Some \<lparr>val = str ''MIIE'', encoding = [str ''UTF8'']\<rparr>,
      plainEncoding = Some [str ''UTF8''], cipherEncoding = Some [str ''BASE64'']\<rparr>"

section \<open>Base64 stringify and parse are inverse\<close>

lemma and_63_eq_mod: "(x::nat) AND 0x3f = x mod 64"
proof -
  have "x AND 63 = take_bit 6 x"
    by (simp add: take_bit_eq_mask mask_eq_exp_minus_1)
  then show ?thesis
    by (simp add: take_bit_eq_mod)
qed

lemma bit_less_exp: "(y::nat) < 2 ^ n \<Longrightarrow> bit y m \<Longrightarrow> m < n"
proof (rule ccontr)
  assume y: "y < 2 ^ n" and b: "bit y m" and "\<not> m < n"
  then have "n \<le> m" by simp
  then have "(2::nat) ^ n \<le> 2 ^ m" by simp
  with y have "y < 2 ^ m" by (rule less_le_trans)
  then have "y div 2 ^ m = 0" by simp
  with b show False by (simp add: bit_iff_odd)
qed

lemma push_bit_or_add: "(y::nat) < 2 ^ n \<Longrightarrow> push_bit n x OR y = x * 2 ^ n + y"
proof -
  assume y: "y < 2 ^ n"
  have "push_bit n x + y = push_bit n x OR y"
    by (rule disjunctive_add) (use y in \<open>auto simp add: bit_push_bit_iff dest: bit_less_exp\<close>)
  then show ?thesis by (simp add: push_bit_eq_mult)
qed

lemma triplet_arith: "triplet a b c = unat a * 65536 + unat b * 256 + unat c"
proof -
  have b: "unat b < 256" and c: "unat c < 256"
    using unsigned_less [of b] unsigned_less [of c] by simp_all
  have "push_bit 8 (unat b) OR unat c = unat b * 2 ^ 8 + unat c"
    using c by (intro push_bit_or_add) simp
  moreover have "push_bit 16 (unat a) OR (unat b * 2 ^ 8 + unat c)
                   = unat a * 2 ^ 16 + (unat b * 2 ^ 8 + unat c)"
    using b c by (intro push_bit_or_add) simp
  ultimately show ?thesis
    by (simp add: triplet_def or.assoc)
qed

lemma div_mod_unique:
  fixes x q d r :: nat
  assumes "x = q * d + r" "r < d"
  shows "x div d = q" and "x mod d = r"
  using assms by simp_all

lemma sextet_nat:
  fixes a b c :: nat
  assumes "a < 256" "b < 256" "c < 256"
  shows "(a * 65536 + b * 256 + c) div 262144 mod 64 = a div 4"
    and "(a * 65536 + b * 256 + c) div 4096 mod 64 = (a mod 4) * 16 + b div 16"
    and "(a * 65536 + b * 256 + c) div 64 mod 64 = (b mod 16) * 4 + c div 64"
    and "(a * 65536 + b * 256 + c) mod 64 = c mod 64"
proof -
  define a1 a0 b1 b0 c1 c0
    where "a1 = a div 4" and "a0 = a mod 4" and "b1 = b div 16" and "b0 = b mod 16"
      and "c1 = c div 64" and "c0 = c mod 64"
  have a: "a = a1 * 4 + a0" and b: "b = b1 * 16 + b0" and c: "c = c1 * 64 + c0"
    by (simp_all add: a1_def a0_def b1_def b0_def c1_def c0_def)
  have bounds: "a0 < 4" "b0 < 16" "c0 < 64" "a1 < 64" "b1 < 16" "c1 < 4"
    using assms by (simp_all add: a1_def a0_def b1_def b0_def c1_def c0_def less_mult_imp_div_less)
  let ?t = "a * 65536 + b * 256 + c"
  have "?t = a1 * 262144 + (a0 * 65536 + b * 256 + c)"
    by (simp add: a)
  moreover have "a0 * 65536 + b * 256 + c < 262144"
    using bounds assms by linarith
  ultimately have "?t div 262144 = a1"
    by (rule div_mod_unique)
  then show "?t div 262144 mod 64 = a div 4"
    using bounds by (simp add: a1_def)
  have "?t = (a * 16 + b1) * 4096 + (b0 * 256 + c)"
    by (simp add: b)
  moreover have "b0 * 256 + c < 4096"
    using bounds assms by linarith
  ultimately have d12: "?t div 4096 = a * 16 + b1"
    by (rule div_mod_unique)
  have "a * 16 + b1 = a1 * 64 + (a0 * 16 + b1)"
    by (simp add: a)
  moreover have "a0 * 16 + b1 < 64"
    using bounds by linarith
  ultimately have "(a * 16 + b1) mod 64 = a0 * 16 + b1"
    by (rule div_mod_unique)
  with d12 show "?t div 4096 mod 64 = (a mod 4) * 16 + b div 16"
    by (simp add: a0_def b1_def)
  have "?t = (a * 1024 + b * 4 + c1) * 64 + c0"
    by (simp add: c)
  moreover note \<open>c0 < 64\<close>
  ultimately have d6: "?t div 64 = a * 1024 + b * 4 + c1" and m6: "?t mod 64 = c0"
    by (rule div_mod_unique)+
  have "a * 1024 + b * 4 + c1 = (a * 16 + b1) * 64 + (b0 * 4 + c1)"
    by (simp add: b)
  moreover have "b0 * 4 + c1 < 64"
    using bounds by linarith
  ultimately have "(a * 1024 + b * 4 + c1) mod 64 = b0 * 4 + c1"
    by (rule div_mod_unique)
  with d6 show "?t div 64 mod 64 = (b mod 16) * 4 + c div 64"
    by (simp add: b0_def c1_def)
  from m6 show "?t mod 64 = c mod 64"
    by (simp add: c0_def)
qed

lemma sextet_arith:
  "drop_bit 18 (triplet a b c) AND 0x3f = unat a div 4"
  "drop_bit 12 (triplet a b c) AND 0x3f = (unat a mod 4) * 16 + unat b div 16"
  "drop_bit 6 (triplet a b c) AND 0x3f = (unat b mod 16) * 4 + unat c div 64"
  "triplet a b c AND 0x3f = unat c mod 64"
proof -
  have a: "unat a < 256" and b: "unat b < 256" and c: "unat c < 256"
    using unsigned_less [of a] unsigned_less [of b] unsigned_less [of c] by simp_all
  note s = sextet_nat [OF a b c]
  show "drop_bit 18 (triplet a b c) AND 0x3f = unat a div 4"
    by (simp add: triplet_arith and_63_eq_mod drop_bit_eq_div s)
  show "drop_bit 12 (triplet a b c) AND 0x3f = (unat a mod 4) * 16 + unat b div 16"
    by (simp add: triplet_arith and_63_eq_mod drop_bit_eq_div s)
  show "drop_bit 6 (triplet a b c) AND 0x3f = (unat b mod 16) * 4 + unat c div 64"
    by (simp add: triplet_arith and_63_eq_mod drop_bit_eq_div s)
  show "triplet a b c AND 0x3f = unat c mod 64"
    by (simp add: triplet_arith and_63_eq_mod s)
qed

lemma upt_0_65: "[0..<65] = 0 # 1 # [2..<65]"
proof -
  have "[0..<65] = 0 # [Suc 0..<65]" by (rule upt_conv_Cons) simp
  also have "[Suc 0..<65] = Suc 0 # [Suc (Suc 0)..<65]" by (rule upt_conv_Cons) simp
  finally show ?thesis by (simp add: numeral_2_eq_2)
qed

lemma base64_map_eq:
  "base64_map =
     map (\<lambda>k. if k < 26 then 65 + k else if k < 52 then 71 + k else if k < 62 then k - 4
              else if k = 62 then 43 else if k = 63 then 47 else 61) [0..<65]"
  unfolding upt_0_65 by (simp add: base64_map_def str_def)

lemma base64_map_nth:
  "k < 64 \<Longrightarrow> base64_map ! k =
     (if k < 26 then 65 + k else if k < 52 then 71 + k else if k < 62 then k - 4
      else if k = 62 then 43 else 47)"
  by (subst base64_map_eq) (simp del: upt_Suc)

lemma reverseMap_base64_map: "k < 64 \<Longrightarrow> reverseMap (base64_map ! k) = k"
  by (auto simp add: base64_map_nth reverseMap_def)

lemma base64_map_not_special:
  "k < 64 \<Longrightarrow> base64_map ! k \<noteq> 0x3D \<and> base64_map ! k \<noteq> 0x2D \<and> base64_map ! k \<noteq> 0x5F"
  by (auto simp add: base64_map_nth)

lemma bitsCombined_sextets:
  assumes "i < 64" "j < 64"
  shows "bitsCombined 1 (base64_map ! i) (base64_map ! j) = of_nat (i * 4 + j div 16)"
    and "bitsCombined 2 (base64_map ! i) (base64_map ! j) = of_nat (i * 16 + j div 4)"
    and "bitsCombined 3 (base64_map ! i) (base64_map ! j) = of_nat (i * 64 + j)"
proof -
  have "push_bit 2 i OR j div 16 = i * 2 ^ 2 + j div 16"
    using assms(2) by (intro push_bit_or_add) simp
  then show "bitsCombined 1 (base64_map ! i) (base64_map ! j) = of_nat (i * 4 + j div 16)"
    using assms by (simp add: bitsCombined_def reverseMap_base64_map drop_bit_eq_div)
  have "push_bit 4 i OR j div 4 = i * 2 ^ 4 + j div 4"
    using assms(2) by (intro push_bit_or_add) simp
  then show "bitsCombined 2 (base64_map ! i) (base64_map ! j) = of_nat (i * 16 + j div 4)"
    using assms by (simp add: bitsCombined_def reverseMap_base64_map drop_bit_eq_div)
  have "push_bit 6 i OR j = i * 2 ^ 6 + j"
    using assms(2) by (intro push_bit_or_add) simp
  then show "bitsCombined 3 (base64_map ! i) (base64_map ! j) = of_nat (i * 64 + j)"
    using assms by (simp add: bitsCombined_def reverseMap_base64_map)
qed

lemma of_nat_byte: "n mod 256 = unat b \<Longrightarrow> (of_nat n :: byte) = b"
proof -
  assume "n mod 256 = unat b"
  then have "unat (of_nat n :: byte) = unat b"
    by (simp add: unat_of_nat)
  then show ?thesis
    by (simp add: word_unat_eq_iff)
qed

lemma byte_of_sextets:
  fixes a b c :: byte
  shows "(of_nat (unat a div 4 * 4 + (unat a mod 4 * 16 + unat b div 16) div 16) :: byte) = a"
    and "(of_nat ((unat a mod 4 * 16 + unat b div 16) * 16
                    + (unat b mod 16 * 4 + unat c div 64) div 4) :: byte) = b"
    and "(of_nat ((unat b mod 16 * 4 + unat c div 64) * 64 + unat c mod 64) :: byte) = c"
proof -
  have ua: "unat a < 256" and ub: "unat b < 256" and uc: "unat c < 256"
    using unsigned_less [of a] unsigned_less [of b] unsigned_less [of c] by simp_all
  have b1: "unat b div 16 < 16" and c1: "unat c div 64 < 4"
    using ub uc by (simp_all add: less_mult_imp_div_less)
  have d1: "(unat a mod 4 * 16 + unat b div 16) div 16 = unat a mod 4"
    using refl b1 by (rule div_mod_unique)
  have d2: "(unat b mod 16 * 4 + unat c div 64) div 4 = unat b mod 16"
    using refl c1 by (rule div_mod_unique)
  have "(unat a div 4 * 4 + (unat a mod 4 * 16 + unat b div 16) div 16) mod 256 = unat a"
    using ua by (simp add: d1)
  then show "(of_nat (unat a div 4 * 4 + (unat a mod 4 * 16 + unat b div 16) div 16) :: byte) = a"
    by (rule of_nat_byte)
  have "(unat a mod 4 * 16 + unat b div 16) * 16 + (unat b mod 16 * 4 + unat c div 64) div 4
          = unat a mod 4 * 256 + (unat b div 16 * 16 + unat b mod 16)"
    by (simp add: d2)
  then have "((unat a mod 4 * 16 + unat b div 16) * 16
               + (unat b mod 16 * 4 + unat c div 64) div 4) mod 256 = unat b"
    using ub by simp
  then show "(of_nat ((unat a mod 4 * 16 + unat b div 16) * 16
                       + (unat b mod 16 * 4 + unat c div 64) div 4) :: byte) = b"
    by (rule of_nat_byte)
  have "(unat b mod 16 * 4 + unat c div 64) * 64 + unat c mod 64
          = unat b mod 16 * 256 + (unat c div 64 * 64 + unat c mod 64)"
    by simp
  then have "((unat b mod 16 * 4 + unat c div 64) * 64 + unat c mod 64) mod 256 = unat c"
    using uc by simp
  then show "(of_nat ((unat b mod 16 * 4 + unat c div 64) * 64 + unat c mod 64) :: byte) = c"
    by (rule of_nat_byte)
qed

lemma sextet_bounds:
  "drop_bit 18 (triplet a b c) AND 0x3f < 64"
  "drop_bit 12 (triplet a b c) AND 0x3f < 64"
  "drop_bit 6 (triplet a b c) AND 0x3f < 64"
  "triplet a b c AND 0x3f < 64"
  by (simp_all add: and_63_eq_mod)

lemma sextetChar_triplet:
  "sextetChar (triplet a b c) 0 = base64_map ! (unat a div 4)"
  "sextetChar (triplet a b c) 1 = base64_map ! ((unat a mod 4) * 16 + unat b div 16)"
  "sextetChar (triplet a b c) 2 = base64_map ! ((unat b mod 16) * 4 + unat c div 64)"
  "sextetChar (triplet a b c) 3 = base64_map ! (unat c mod 64)"
  by (simp_all add: sextetChar_def sextet_arith)

lemma sextet_index_bounds:
  fixes a b c :: byte
  shows "unat a div 4 < 64" "(unat a mod 4) * 16 + unat b div 16 < 64"
    "(unat b mod 16) * 4 + unat c div 64 < 64" "unat c mod 64 < 64"
  using sextet_bounds [of a b c] by (simp_all add: sextet_arith)

lemma bitsCombined_triplet:
  "bitsCombined 1 (sextetChar (triplet a b c) 0) (sextetChar (triplet a b c) 1) = a"
  "bitsCombined 2 (sextetChar (triplet a b c) 1) (sextetChar (triplet a b c) 2) = b"
  "bitsCombined 3 (sextetChar (triplet a b c) 2) (sextetChar (triplet a b c) 3) = c"
  by (simp_all only: sextetChar_triplet bitsCombined_sextets sextet_index_bounds byte_of_sextets)

lemma parseLoop_group:
  "parseLoop (map (sextetChar (triplet a b c)) [0, 1, 2, 3] @ r) = a # b # c # parseLoop r"
  by (simp only: list.map append_Cons append_Nil parseLoop.simps bitsCombined_triplet)

lemma sextetChar_plain:
  "sextetChar (triplet a b c) j \<noteq> 0x3D \<and> sextetChar (triplet a b c) j \<noteq> 0x2D
     \<and> sextetChar (triplet a b c) j \<noteq> 0x5F"
  unfolding sextetChar_def
  by (rule base64_map_not_special) (simp add: and_63_eq_mod)

lemma base64Chars_plain:
  "x \<in> set (base64Chars bs) \<Longrightarrow> x \<noteq> 0x3D \<and> x \<noteq> 0x2D \<and> x \<noteq> 0x5F"
  by (induction bs rule: base64Chars.induct) (use sextetChar_plain in auto)

lemma parseLoop_base64Chars: "parseLoop (base64Chars bs) = bs"
proof (induction bs rule: base64Chars.induct)
  case 1
  show ?case by simp
next
  case (2 b1)
  show ?case
    by (simp only: base64Chars.simps list.map parseLoop.simps bitsCombined_triplet)
next
  case (3 b1 b2)
  show ?case
    by (simp only: base64Chars.simps list.map parseLoop.simps bitsCombined_triplet)
next
  case (4 b1 b2 b3 r)
  then show ?case
    by (simp only: base64Chars.simps parseLoop_group)
qed

lemma takeWhile_padTo4:
  "\<forall>x\<in>set cs. x \<noteq> 0x3D \<Longrightarrow> takeWhile (\<lambda>c. c \<noteq> 0x3D) (padTo4 cs) = cs"
  by (cases "(4 - length cs mod 4) mod 4") (simp_all add: padTo4_def)

lemma Base64_roundtrip: "Base64_parse (Base64_stringify bs) = bs"
proof -
  have "\<forall>x\<in>set (base64Chars bs). x \<noteq> 0x3D"
    using base64Chars_plain by blast
  then show ?thesis
    by (simp add: Base64_parse_def Base64_stringify_def takeWhile_padTo4 parseLoop_base64Chars)
qed

lemma urlsafe_padTo4:
  assumes "\<forall>x\<in>set cs. x \<noteq> 0x3D \<and> x \<noteq> 0x2D \<and> x \<noteq> 0x5F"
  shows "replaceAll 0x5F 0x2F (replaceAll 0x2D 0x2B (urlsafe (padTo4 cs))) = cs"
proof -
  have "urlsafe (padTo4 cs) = replaceAll 0x2F 0x5F (replaceAll 0x2B 0x2D cs)"
    using assms by (simp add: urlsafe_def padTo4_def removeAll_def replaceAll_def filter_map o_def)
  moreover have "replaceAll 0x5F 0x2F (replaceAll 0x2D 0x2B
                   (replaceAll 0x2F 0x5F (replaceAll 0x2B 0x2D cs))) = cs"
    using assms by (induction cs) (simp_all add: replaceAll_def)
  ultimately show ?thesis by simp
qed

lemma Base64_urlsafe_roundtrip: "Base64_parse (unurlsafe (urlsafe (Base64_stringify bs))) = bs"
proof -
  have plain: "\<forall>x\<in>set (base64Chars bs). x \<noteq> 0x3D \<and> x \<noteq> 0x2D \<and> x \<noteq> 0x5F"
    using base64Chars_plain by blast
  then have "\<forall>x\<in>set (base64Chars bs). x \<noteq> 0x3D" by blast
  then show ?thesis
    by (simp add: unurlsafe_def Base64_stringify_def urlsafe_padTo4 [OF plain] Base64_parse_def
        takeWhile_padTo4 parseLoop_base64Chars)
qed

section \<open>Evaluation rules\<close>

lemma replicate_numeral: "replicate (numeral k) x = x # replicate (pred_numeral k) x"
  by (simp add: numeral_eq_Suc)

lemma StringToCodePoints_ascii: "list_all (\<lambda>c. c < 0x80) s \<Longrightarrow> StringToCodePoints s = s"
  by (induction s rule: StringToCodePoints.induct) simp_all

lemma CodePointsToString_ascii: "list_all (\<lambda>c. c < 0x80) s \<Longrightarrow> CodePointsToString s = s"
  by (induction s) (simp_all add: CodePointsToString_def utf16_units_def)

lemma asciiUpper_less: "c < 0x80 \<Longrightarrow> asciiUpper c < 0x80"
  by (simp add: asciiUpper_def less_imp_diff_less)

lemma asciiLower_less: "c < 0x80 \<Longrightarrow> asciiLower c < 0x80"
  by (simp add: asciiLower_def)

lemma upperCodePoint_ascii:
  "list_all (\<lambda>c. c < 0x80) s \<Longrightarrow> concat (map (upperCodePoint U) s) = map asciiUpper s"
  by (induction s) (simp_all add: upperCodePoint_def)

lemma lowerCodePoints_ascii:
  "list_all (\<lambda>c. c < 0x80) s \<Longrightarrow> lowerCodePoints U before s = map asciiLower s"
  by (induction s arbitrary: before) simp_all

text \<open>On an ASCII string the case conversions do not depend on the Unicode tables.\<close>

lemma toUpperCase_ascii:
  assumes "list_all (\<lambda>c. c < 0x80) s"
  shows "toUpperCase U s = map asciiUpper s"
proof -
  have "list_all (\<lambda>c. c < 0x80) (map asciiUpper s)"
    using assms by (induction s) (simp_all add: asciiUpper_less)
  then show ?thesis
    using assms
    by (simp add: toUpperCase_def StringToCodePoints_ascii upperCodePoint_ascii
        CodePointsToString_ascii)
qed

lemma toLowerCase_ascii:
  assumes "list_all (\<lambda>c. c < 0x80) s"
  shows "toLowerCase U s = map asciiLower s"
proof -
  have "list_all (\<lambda>c. c < 0x80) (map asciiLower s)"
    using assms by (induction s) (simp_all add: asciiLower_less)
  then show ?thesis
    using assms
    by (simp add: toLowerCase_def StringToCodePoints_ascii lowerCodePoints_ascii
        CodePointsToString_ascii)
qed

lemmas js_eval = str_def trim_def isWhiteSpace_def isLineTerminator_def toUpperCase_ascii
  toLowerCase_ascii asciiUpper_def asciiLower_def startsWith_def replaceAll_def removeAll_def
  padEnd_def hexDigitValue_def
  isHexDigit_def hexValue_def parseInt16_def bindE_def tryCatch_def orElse_def replicate_numeral

lemmas codec_eval = inRange_def lower2_def upper2_def contBits_def utf16_units_def
  Utf8_stringify_def stripBOM_def TextDecoder_decode_def utf8_bytes_def Utf8_parse_def
  hexChar_def Hex_stringify_def Hex_parse_def base64_map_def triplet_def sextetChar_def
  padTo4_def Base64_stringify_def reverseMap_def bitsCombined_def Base64_parse_def
  urlsafe_def unurlsafe_def

lemmas encoding_eval = EncodingUtils_encode_def EncodingUtils_decode_def decode_final_def

section \<open>Hex stringify and parse are inverse\<close>

lemma upt_0_16: "[0..<16] = 0 # 1 # [2..<16]"
proof -
  have "[0..<16] = 0 # [Suc 0..<16]" by (rule upt_conv_Cons) simp
  also have "[Suc 0..<16] = Suc 0 # [Suc (Suc 0)..<16]" by (rule upt_conv_Cons) simp
  finally show ?thesis by (simp add: numeral_2_eq_2)
qed

lemma hex_digits_eq:
  "str ''0123456789abcdef'' = map (\<lambda>k. if k < 10 then 48 + k else 87 + k) [0..<16]"
  unfolding upt_0_16 by (simp add: str_def)

lemma hexChar_eq: "d < 16 \<Longrightarrow> hexChar d = (if d < 10 then 48 + d else 87 + d)"
  unfolding hexChar_def by (subst hex_digits_eq) (simp del: upt_Suc)

lemma parseInt16_hex_pair:
  assumes "d1 < 16" "d2 < 16"
  shows "parseInt16 [hexChar d1, hexChar d2] = Some (int (d1 * 16 + d2))"
  using assms
  by (auto simp add: hexChar_eq parseInt16_def isWhiteSpace_def isLineTerminator_def startsWith_def
      str_def isHexDigit_def hexDigitValue_def hexValue_def)

lemma isHexDigit_hexChar: "d < 16 \<Longrightarrow> isHexDigit (hexChar d)"
  by (auto simp add: hexChar_eq isHexDigit_def hexDigitValue_def)

lemma byte_nibbles: "unat (b::byte) div 16 < 16" "unat b mod 16 < 16"
proof -
  have "unat b < 256" using unsigned_less [of b] by simp
  then show "unat b div 16 < 16" by (simp add: less_mult_imp_div_less)
  show "unat b mod 16 < 16" by simp
qed

lemma Hex_stringify_wellformed:
  "even (length (Hex_stringify w)) \<and> list_all isHexDigit (Hex_stringify w)"
  by (induction w) (simp_all add: Hex_stringify_def isHexDigit_hexChar byte_nibbles)

lemma hexPairs_Hex_stringify: "hexPairs (Hex_stringify w) = w"
proof (induction w)
  case Nil
  show ?case by (simp add: Hex_stringify_def)
next
  case (Cons b w)
  note d = byte_nibbles [of b]
  have "(of_int (int (unat b div 16 * 16 + unat b mod 16)) :: byte) = b"
    by simp
  with Cons show ?case
    by (simp add: Hex_stringify_def parseInt16_hex_pair [OF d])
qed

lemma Hex_roundtrip: "Hex_parse P (Hex_stringify w) = w"
  using Hex_stringify_wellformed [of w] by (simp add: Hex_parse_def hexPairs_Hex_stringify)


section \<open>Encoding chains\<close>

lemma name_distinct:
  "str ''HEX'' \<noteq> str ''UTF8''" "str ''BASE64'' \<noteq> str ''UTF8''" "str ''BASE64_URLSAFE'' \<noteq> str ''UTF8''"
  "str ''BASE64'' \<noteq> str ''HEX''" "str ''BASE64_URLSAFE'' \<noteq> str ''HEX''"
  "str ''BASE64_URLSAFE'' \<noteq> str ''BASE64''"
  "str ''UTF8'' \<noteq> str ''HEX''" "str ''UTF8'' \<noteq> str ''BASE64''" "str ''UTF8'' \<noteq> str ''BASE64_URLSAFE''"
  "str ''HEX'' \<noteq> str ''BASE64''" "str ''HEX'' \<noteq> str ''BASE64_URLSAFE''"
  "str ''BASE64'' \<noteq> str ''BASE64_URLSAFE''"
  by (simp_all add: str_def)

lemma encode_loop_chain:
  assumes "\<forall>e\<in>set es. toUpperCase P e \<in> {str ''UTF8'', str ''HEX'', str ''BASE64'', str ''BASE64_URLSAFE''}"
  shows "encode_loop P w es =
           (if \<exists>e\<in>set es. toUpperCase P e = str ''BASE64_URLSAFE''
            then Inr (Str (urlsafe (Base64_stringify w))) else Inr (WordArray w))"
  using assms
  by (induction es) (auto simp add: Let_def name_distinct Hex_roundtrip Base64_roundtrip)

lemma decode_loop_utf8_prefix:
  assumes "\<forall>e\<in>set pre. toUpperCase P e = str ''UTF8''"
  shows "decode_loop P (Str s) (pre @ rest) = decode_loop P (Str s) rest"
  using assms by (induction pre) simp_all

lemma decode_loop_wordarray_prefix:
  assumes "\<forall>e\<in>set post. toUpperCase P e \<in> {str ''HEX'', str ''BASE64'', str ''BASE64_URLSAFE''}"
  shows "decode_loop P (WordArray w) (post @ rest) = decode_loop P (WordArray w) rest"
  using assms by (induction post) (auto simp add: Let_def name_distinct)

lemma decode_loop_utf8_all:
  assumes "\<forall>e\<in>set es. toUpperCase P e = str ''UTF8''"
  shows "decode_loop P (Str s) es = Inr (Str s)"
  using decode_loop_utf8_prefix [OF assms, where s = s and rest = "[]"] by simp

lemma decode_loop_invalid:
  assumes "\<exists>e\<in>set es. toUpperCase P e \<notin> {str ''UTF8'', str ''HEX'', str ''BASE64'', str ''BASE64_URLSAFE''}"
  shows "\<exists>err. decode_loop P r es = Inl err"
  using assms
proof (induction es arbitrary: r)
  case Nil
  then show ?case by simp
next
  case (Cons e es)
  show ?case
  proof (cases "toUpperCase P e \<in> {str ''UTF8'', str ''HEX'', str ''BASE64'', str ''BASE64_URLSAFE''}")
    case False
    then show ?thesis by (simp add: Let_def)
  next
    case True
    with Cons.prems have "\<exists>e\<in>set es. toUpperCase P e \<notin> {str ''UTF8'', str ''HEX'', str ''BASE64'', str ''BASE64_URLSAFE''}"
      by auto
    then have ih: "\<And>r. \<exists>err. decode_loop P r es = Inl err" by (rule Cons.IH)
    show ?thesis
    proof (cases r)
      case (Str s)
      then show ?thesis using ih by (simp add: Let_def)
    next
      case (WordArray w)
      then show ?thesis using ih
        by (cases "Utf8_stringify w") (simp_all add: Let_def bindE_def)
    qed
  qed
qed

lemma decode_loop_stuck:
  assumes "Utf8_stringify w = Inl e0"
  shows "(\<exists>err. decode_loop P (WordArray w) es = Inl err)
         \<or> decode_loop P (WordArray w) es = Inr (WordArray w)"
  by (induction es) (simp_all add: Let_def bindE_def assms)

lemma decode_stuck:
  assumes "Utf8_stringify w = Inl e0"
    and "decode_loop P (Str c) es = decode_loop P (WordArray w) rest"
  shows "(\<exists>err. EncodingUtils_decode P c es = Inl err)
         \<or> EncodingUtils_decode P c es = Inr (Base64_stringify w)"
  using decode_loop_stuck [OF assms(1), of P rest]
  by (auto simp add: EncodingUtils_decode_def assms bindE_def decode_final_def)

lemma encode_chain:
  assumes "\<forall>e\<in>set es. toUpperCase P e \<in> {str ''UTF8'', str ''HEX'', str ''BASE64'', str ''BASE64_URLSAFE''}"
  shows "EncodingUtils_encode P (WordArray w) es =
           Inr (if \<exists>e\<in>set es. toUpperCase P e = str ''BASE64_URLSAFE''
                then urlsafe (Base64_stringify w) else Base64_stringify w)"
proof -
  have "\<forall>e\<in>set (rev es). toUpperCase P e \<in> {str ''UTF8'', str ''HEX'', str ''BASE64'', str ''BASE64_URLSAFE''}"
    using assms by simp
  from encode_loop_chain [OF this, of w]
  show ?thesis by (simp add: EncodingUtils_encode_def bindE_def)
qed

lemma decode_utf8_suffix:
  assumes "\<forall>e\<in>set suf. toUpperCase P e = str ''UTF8''"
    and "Utf8_stringify w = Inr plain"
  shows "bindE (decode_loop P (WordArray w) suf) (\<lambda>r. Inr (decode_final r)) = Inr plain"
proof (cases suf)
  case Nil
  then show ?thesis using assms(2) by (simp add: bindE_def decode_final_def)
next
  case (Cons e es)
  with assms(1) have e: "toUpperCase P e = str ''UTF8''"
    and es: "\<forall>e\<in>set es. toUpperCase P e = str ''UTF8''" by simp_all
  show ?thesis
    by (simp add: Cons e assms(2) bindE_def decode_loop_utf8_all [OF es] decode_final_def)
qed

text \<open>After the Base64 entry the loop holds the payload again.\<close>

lemma decode_loop_base64_entry:
  assumes pre: "\<forall>e\<in>set pre. toUpperCase P e = str ''UTF8''"
    and post: "\<forall>e\<in>set post. toUpperCase P e \<in> {str ''HEX'', str ''BASE64'', str ''BASE64_URLSAFE''}"
    and x: "toUpperCase P x = str ''BASE64_URLSAFE''
            \<or> (toUpperCase P x = str ''BASE64''
                \<and> (\<forall>e\<in>set (post @ rest). toUpperCase P e \<noteq> str ''BASE64_URLSAFE''))"
    and rest: "\<forall>e\<in>set rest. toUpperCase P e \<in> {str ''UTF8'', str ''HEX'', str ''BASE64'', str ''BASE64_URLSAFE''}"
  shows "\<exists>c. EncodingUtils_encode P (WordArray w) (pre @ x # post @ rest) = Inr c
            \<and> decode_loop P (Str c) (pre @ x # post @ rest) = decode_loop P (WordArray w) rest"
proof -
  let ?E = "pre @ x # post @ rest"
  have names: "\<forall>e\<in>set ?E. toUpperCase P e \<in> {str ''UTF8'', str ''HEX'', str ''BASE64'', str ''BASE64_URLSAFE''}"
    using pre post x rest by auto
  note enc = encode_chain [OF names, of w]
  show ?thesis
  proof (cases "toUpperCase P x = str ''BASE64_URLSAFE''")
    case True
    then have "\<exists>e\<in>set ?E. toUpperCase P e = str ''BASE64_URLSAFE''" by auto
    with enc have e: "EncodingUtils_encode P (WordArray w) ?E = Inr (urlsafe (Base64_stringify w))"
      by (simp only: if_True)
    have "decode_loop P (Str (urlsafe (Base64_stringify w))) ?E = decode_loop P (WordArray w) rest"
      using True
      by (simp add: decode_loop_utf8_prefix [OF pre] name_distinct Base64_urlsafe_roundtrip
          decode_loop_wordarray_prefix [OF post])
    with e show ?thesis by blast
  next
    case False
    with x have b64: "toUpperCase P x = str ''BASE64''"
      and no: "\<forall>e\<in>set (post @ rest). toUpperCase P e \<noteq> str ''BASE64_URLSAFE''" by auto
    have "\<not> (\<exists>e\<in>set ?E. toUpperCase P e = str ''BASE64_URLSAFE'')"
      using pre no False by (auto simp add: name_distinct)
    with enc have e: "EncodingUtils_encode P (WordArray w) ?E = Inr (Base64_stringify w)"
      by (simp only: if_False)
    have "decode_loop P (Str (Base64_stringify w)) ?E = decode_loop P (WordArray w) rest"
      using b64
      by (simp add: decode_loop_utf8_prefix [OF pre] name_distinct Base64_roundtrip
          decode_loop_wordarray_prefix [OF post])
    with e show ?thesis by blast
  qed
qed

lemma roundtrip_shape:
  assumes pre: "\<forall>e\<in>set pre. toUpperCase P e = str ''UTF8''"
    and post: "\<forall>e\<in>set post. toUpperCase P e \<in> {str ''HEX'', str ''BASE64'', str ''BASE64_URLSAFE''}"
    and x: "toUpperCase P x = str ''BASE64_URLSAFE''
            \<or> (toUpperCase P x = str ''BASE64''
                \<and> (\<forall>e\<in>set post. toUpperCase P e \<noteq> str ''BASE64_URLSAFE''))"
    and suf: "\<forall>e\<in>set suf. toUpperCase P e = str ''UTF8''"
    and utf8: "Utf8_stringify payload = Inr plain"
  shows "bindE (EncodingUtils_encode P (WordArray payload) (pre @ x # post @ suf))
               (\<lambda>c. EncodingUtils_decode P c (pre @ x # post @ suf)) = Inr plain"
proof -
  have x': "toUpperCase P x = str ''BASE64_URLSAFE''
            \<or> (toUpperCase P x = str ''BASE64''
                \<and> (\<forall>e\<in>set (post @ suf). toUpperCase P e \<noteq> str ''BASE64_URLSAFE''))"
    using x suf by (auto simp add: name_distinct)
  have suf': "\<forall>e\<in>set suf. toUpperCase P e \<in> {str ''UTF8'', str ''HEX'', str ''BASE64'', str ''BASE64_URLSAFE''}"
    using suf by simp
  from decode_loop_base64_entry [OF pre post x' suf', of payload]
  obtain c where c: "EncodingUtils_encode P (WordArray payload) (pre @ x # post @ suf) = Inr c"
    and d: "decode_loop P (Str c) (pre @ x # post @ suf) = decode_loop P (WordArray payload) suf"
    by blast
  show ?thesis
    using decode_utf8_suffix [OF suf utf8]
    by (simp add: c d EncodingUtils_decode_def bindE_def)
qed

subsection \<open>Chains on which the round trip fails\<close>

lemma fail_invalid:
  assumes "\<exists>e\<in>set E. toUpperCase P e \<notin> {str ''UTF8'', str ''HEX'', str ''BASE64'', str ''BASE64_URLSAFE''}"
  shows "bindE (EncodingUtils_encode P d E) (\<lambda>c. EncodingUtils_decode P c E) \<noteq> Inr t"
proof (cases "EncodingUtils_encode P d E")
  case (Inl e)
  then show ?thesis by (simp add: bindE_def)
next
  case (Inr c)
  from decode_loop_invalid [OF assms, of "Str c"]
  obtain err where "decode_loop P (Str c) E = Inl err" by blast
  then show ?thesis by (simp add: Inr bindE_def EncodingUtils_decode_def)
qed

lemma fail_all_utf8:
  assumes "\<forall>e\<in>set E. toUpperCase P e = str ''UTF8''"
  shows "bindE (EncodingUtils_encode P (WordArray [0x61, 0x62, 0x63]) E)
               (\<lambda>c. EncodingUtils_decode P c E) = Inr (str ''YWJj'')"
proof -
  have names: "\<forall>e\<in>set E. toUpperCase P e \<in> {str ''UTF8'', str ''HEX'', str ''BASE64'', str ''BASE64_URLSAFE''}"
    using assms by simp
  have no: "\<not> (\<exists>e\<in>set E. toUpperCase P e = str ''BASE64_URLSAFE'')"
    using assms by (simp add: name_distinct)
  have b: "Base64_stringify [0x61, 0x62, 0x63] = str ''YWJj''"
    by (simp add: js_eval codec_eval)
  have "EncodingUtils_encode P (WordArray [0x61, 0x62, 0x63]) E = Inr (str ''YWJj'')"
    using encode_chain [OF names, of "[0x61, 0x62, 0x63]"] no by (simp only: if_False b)
  then show ?thesis
    by (simp add: bindE_def EncodingUtils_decode_def decode_loop_utf8_all [OF assms] decode_final_def)
qed

lemma fail_hex:
  assumes pre: "\<forall>e\<in>set pre. toUpperCase P e = str ''UTF8''"
    and x: "toUpperCase P x = str ''HEX''"
    and names: "\<forall>e\<in>set (pre @ x # r). toUpperCase P e \<in> {str ''UTF8'', str ''HEX'', str ''BASE64'', str ''BASE64_URLSAFE''}"
  shows "bindE (EncodingUtils_encode P (WordArray [104, 23, 90]) (pre @ x # r))
               (\<lambda>c. EncodingUtils_decode P c (pre @ x # r)) \<noteq> Inr [104, 23, 90]"
proof -
  let ?E = "pre @ x # r"
  have b: "Base64_stringify [104, 23, 90] = str ''aBda''" "urlsafe (str ''aBda'') = str ''aBda''"
    by (simp_all add: js_eval codec_eval)
  have enc: "EncodingUtils_encode P (WordArray [104, 23, 90]) ?E = Inr (str ''aBda'')"
    using encode_chain [OF names, of "[104, 23, 90]"] by (simp only: b if_cancel)
  have h: "Hex_parse P (str ''aBda'') = [0xAB, 0xDA]"
    by (simp add: js_eval codec_eval)
  have bad: "Utf8_stringify [0xAB, 0xDA] = Inl (Error ''Malformed UTF-8 data'')"
    by (simp add: js_eval codec_eval)
  have loop: "decode_loop P (Str (str ''aBda'')) ?E = decode_loop P (WordArray [0xAB, 0xDA]) r"
    by (simp add: decode_loop_utf8_prefix [OF pre] x name_distinct h)
  have out: "Base64_stringify [0xAB, 0xDA] = str ''q9o=''"
    by (simp add: js_eval codec_eval)
  have "str ''q9o='' \<noteq> [104, 23, 90]" by (simp add: str_def)
  with decode_stuck [OF bad loop] show ?thesis
    by (auto simp add: enc bindE_def out)
qed

lemma fail_base64_then_urlsafe:
  assumes pre: "\<forall>e\<in>set pre. toUpperCase P e = str ''UTF8''"
    and x: "toUpperCase P x = str ''BASE64''"
    and url: "\<exists>e\<in>set r. toUpperCase P e = str ''BASE64_URLSAFE''"
    and names: "\<forall>e\<in>set (pre @ x # r). toUpperCase P e \<in> {str ''UTF8'', str ''HEX'', str ''BASE64'', str ''BASE64_URLSAFE''}"
  shows "bindE (EncodingUtils_encode P (WordArray [0x43, 0xE2, 0x82, 0xAC]) (pre @ x # r))
               (\<lambda>c. EncodingUtils_decode P c (pre @ x # r)) \<noteq> Inr [0x43, 0x20AC]"
proof -
  let ?E = "pre @ x # r"
  have b: "urlsafe (Base64_stringify [0x43, 0xE2, 0x82, 0xAC]) = str ''Q-KCrA''"
    by (simp add: js_eval codec_eval)
  have "\<exists>e\<in>set ?E. toUpperCase P e = str ''BASE64_URLSAFE''" using url by auto
  with encode_chain [OF names, of "[0x43, 0xE2, 0x82, 0xAC]"]
  have enc: "EncodingUtils_encode P (WordArray [0x43, 0xE2, 0x82, 0xAC]) ?E = Inr (str ''Q-KCrA'')"
    by (simp only: if_True b)
  have h: "Base64_parse (str ''Q-KCrA'') = [0x40, 0x02, 0x82, 0xAC]"
    by (simp add: js_eval codec_eval)
  have bad: "Utf8_stringify [0x40, 0x02, 0x82, 0xAC] = Inl (Error ''Malformed UTF-8 data'')"
    by (simp add: js_eval codec_eval)
  have loop: "decode_loop P (Str (str ''Q-KCrA'')) ?E = decode_loop P (WordArray [0x40, 0x02, 0x82, 0xAC]) r"
    by (simp add: decode_loop_utf8_prefix [OF pre] x name_distinct h)
  have out: "Base64_stringify [0x40, 0x02, 0x82, 0xAC] = str ''QAKCrA==''"
    by (simp add: js_eval codec_eval)
  have "str ''QAKCrA=='' \<noteq> [0x43, 0x20AC]" by (simp add: str_def)
  with decode_stuck [OF bad loop] show ?thesis
    by (auto simp add: enc bindE_def out)
qed

lemma fail_reparse:
  assumes pre: "\<forall>e\<in>set pre. toUpperCase P e = str ''UTF8''"
    and post: "\<forall>e\<in>set post. toUpperCase P e \<in> {str ''HEX'', str ''BASE64'', str ''BASE64_URLSAFE''}"
    and x: "toUpperCase P x = str ''BASE64_URLSAFE''
            \<or> (toUpperCase P x = str ''BASE64''
                \<and> (\<forall>e\<in>set (post @ u # us @ n # rest). toUpperCase P e \<noteq> str ''BASE64_URLSAFE''))"
    and u: "toUpperCase P u = str ''UTF8''"
    and us: "\<forall>e\<in>set us. toUpperCase P e = str ''UTF8''"
    and n: "toUpperCase P n \<in> {str ''HEX'', str ''BASE64'', str ''BASE64_URLSAFE''}"
    and rest: "\<forall>e\<in>set rest. toUpperCase P e \<in> {str ''UTF8'', str ''HEX'', str ''BASE64'', str ''BASE64_URLSAFE''}"
  shows "\<exists>w t. Utf8_stringify w = Inr t
           \<and> bindE (EncodingUtils_encode P (WordArray w) (pre @ x # post @ u # us @ n # rest))
                   (\<lambda>c. EncodingUtils_decode P c (pre @ x # post @ u # us @ n # rest)) \<noteq> Inr t"
proof -
  let ?E = "pre @ x # post @ u # us @ n # rest"
  have tail: "\<forall>e\<in>set (u # us @ n # rest). toUpperCase P e \<in> {str ''UTF8'', str ''HEX'', str ''BASE64'', str ''BASE64_URLSAFE''}"
    using u us n rest by auto
  have bad: "Utf8_stringify [0xFF] = Inl (Error ''Malformed UTF-8 data'')"
    by (simp add: js_eval codec_eval)
  have out: "Base64_stringify [0xFF] = str ''/w==''"
    by (simp add: js_eval codec_eval)
  have step: "\<exists>c. EncodingUtils_encode P (WordArray w) ?E = Inr c
                \<and> decode_loop P (Str c) ?E = decode_loop P (Str t) (n # rest)"
    if wt: "Utf8_stringify w = Inr t" for w t
  proof -
    from decode_loop_base64_entry [OF pre post x tail, of w]
    obtain c where c: "EncodingUtils_encode P (WordArray w) ?E = Inr c"
      and d: "decode_loop P (Str c) ?E = decode_loop P (WordArray w) (u # us @ n # rest)"
      by blast
    have "decode_loop P (WordArray w) (u # us @ n # rest) = decode_loop P (Str t) (n # rest)"
      by (simp add: u wt bindE_def decode_loop_utf8_prefix [OF us])
    with c d show ?thesis by simp
  qed
  have fails: "bindE (EncodingUtils_encode P (WordArray w) ?E) (\<lambda>c. EncodingUtils_decode P c ?E) \<noteq> Inr t"
    if wt: "Utf8_stringify w = Inr t" and re: "decode_loop P (Str t) (n # rest) = decode_loop P (WordArray [0xFF]) rest"
      and ne: "t \<noteq> str ''/w==''" for w t
  proof -
    from step [OF wt] obtain c where c: "EncodingUtils_encode P (WordArray w) ?E = Inr c"
      and d: "decode_loop P (Str c) ?E = decode_loop P (Str t) (n # rest)" by blast
    from d re have "decode_loop P (Str c) ?E = decode_loop P (WordArray [0xFF]) rest" by simp
    from decode_stuck [OF bad this] ne show ?thesis
      by (auto simp add: c bindE_def out)
  qed
  show ?thesis
  proof (cases "toUpperCase P n = str ''HEX''")
    case True
    have wt: "Utf8_stringify [0x66, 0x66] = Inr (str ''ff'')"
      by (simp add: js_eval codec_eval)
    have h: "Hex_parse P (str ''ff'') = [0xFF]" by (simp add: js_eval codec_eval)
    have re: "decode_loop P (Str (str ''ff'')) (n # rest) = decode_loop P (WordArray [0xFF]) rest"
      by (simp add: True name_distinct h)
    have "str ''ff'' \<noteq> str ''/w==''" by (simp add: str_def)
    from fails [OF wt re this] wt show ?thesis by blast
  next
    case False
    have wt: "Utf8_stringify [0x2F, 0x77] = Inr (str ''/w'')"
      by (simp add: js_eval codec_eval)
    have h: "Base64_parse (str ''/w'') = [0xFF]" "Base64_parse (unurlsafe (str ''/w'')) = [0xFF]"
      by (simp_all add: js_eval codec_eval)
    from False n have "toUpperCase P n = str ''BASE64'' \<or> toUpperCase P n = str ''BASE64_URLSAFE''"
      by auto
    then have re: "decode_loop P (Str (str ''/w'')) (n # rest) = decode_loop P (WordArray [0xFF]) rest"
      by (auto simp add: name_distinct h)
    have "str ''/w'' \<noteq> str ''/w==''" by (simp add: str_def)
    from fails [OF wt re this] wt show ?thesis by blast
  qed
qed

lemma chain_cases:
  assumes names: "\<forall>e\<in>set E. toUpperCase P e \<in> {str ''UTF8'', str ''HEX'', str ''BASE64'', str ''BASE64_URLSAFE''}"
    and ok: "\<forall>payload plain. Utf8_stringify payload = Inr plain \<longrightarrow>
               bindE (EncodingUtils_encode P (WordArray payload) E)
                     (\<lambda>c. EncodingUtils_decode P c E) = Inr plain"
  shows "\<exists>pre x post suf. E = pre @ x # post @ suf
           \<and> (\<forall>e\<in>set (pre @ suf). toUpperCase P e = str ''UTF8'')
           \<and> (\<forall>e\<in>set post. toUpperCase P e \<in> {str ''HEX'', str ''BASE64'', str ''BASE64_URLSAFE''})
           \<and> (toUpperCase P x = str ''BASE64_URLSAFE''
                \<or> (toUpperCase P x = str ''BASE64''
                    \<and> (\<forall>e\<in>set post. toUpperCase P e \<noteq> str ''BASE64_URLSAFE'')))"
proof -
  have abc: "Utf8_stringify [0x61, 0x62, 0x63] = Inr (str ''abc'')"
    by (simp add: js_eval codec_eval)
  have "\<not> (\<forall>e\<in>set E. toUpperCase P e = str ''UTF8'')"
  proof
    assume "\<forall>e\<in>set E. toUpperCase P e = str ''UTF8''"
    from fail_all_utf8 [OF this] ok abc have "str ''YWJj'' = str ''abc''" by simp
    then show False by (simp add: str_def)
  qed
  then have "\<exists>e\<in>set E. toUpperCase P e \<noteq> str ''UTF8''" by blast
  then obtain pre x r where E: "E = pre @ x # r" and x: "toUpperCase P x \<noteq> str ''UTF8''"
    and pre: "\<forall>e\<in>set pre. \<not> toUpperCase P e \<noteq> str ''UTF8''"
    by (rule split_list_first_propE)
  from pre have pre: "\<forall>e\<in>set pre. toUpperCase P e = str ''UTF8''" by simp
  have names': "\<forall>e\<in>set (pre @ x # r). toUpperCase P e \<in> {str ''UTF8'', str ''HEX'', str ''BASE64'', str ''BASE64_URLSAFE''}"
    using names E by simp
  have hexw: "Utf8_stringify [104, 23, 90] = Inr [104, 23, 90]"
    by (simp add: js_eval codec_eval)
  have nothex: "toUpperCase P x \<noteq> str ''HEX''"
  proof
    assume "toUpperCase P x = str ''HEX''"
    from fail_hex [OF pre this names'] ok hexw E show False by blast
  qed
  have eurw: "Utf8_stringify [0x43, 0xE2, 0x82, 0xAC] = Inr [0x43, 0x20AC]"
    by (simp add: js_eval codec_eval)
  have nourl: "\<forall>e\<in>set r. toUpperCase P e \<noteq> str ''BASE64_URLSAFE''"
    if b: "toUpperCase P x = str ''BASE64''"
  proof (rule ccontr)
    assume "\<not> (\<forall>e\<in>set r. toUpperCase P e \<noteq> str ''BASE64_URLSAFE'')"
    then have "\<exists>e\<in>set r. toUpperCase P e = str ''BASE64_URLSAFE''" by blast
    from fail_base64_then_urlsafe [OF pre b this names'] ok eurw E show False by blast
  qed
  from x nothex names' have xv: "toUpperCase P x = str ''BASE64_URLSAFE'' \<or> toUpperCase P x = str ''BASE64''"
    by auto
  show ?thesis
  proof (cases "\<exists>e\<in>set r. toUpperCase P e = str ''UTF8''")
    case False
    then have post: "\<forall>e\<in>set r. toUpperCase P e \<in> {str ''HEX'', str ''BASE64'', str ''BASE64_URLSAFE''}"
      using names' by auto
    have "E = pre @ x # r @ []" using E by simp
    moreover have "\<forall>e\<in>set (pre @ []). toUpperCase P e = str ''UTF8''" using pre by simp
    moreover have "toUpperCase P x = str ''BASE64_URLSAFE''
                \<or> (toUpperCase P x = str ''BASE64''
                    \<and> (\<forall>e\<in>set r. toUpperCase P e \<noteq> str ''BASE64_URLSAFE''))"
      using xv nourl by blast
    ultimately show ?thesis using post by blast
  next
    case True
    then obtain post u r2 where r: "r = post @ u # r2" and u: "toUpperCase P u = str ''UTF8''"
      and post: "\<forall>e\<in>set post. \<not> toUpperCase P e = str ''UTF8''"
      by (rule split_list_first_propE)
    from post names' r have post: "\<forall>e\<in>set post. toUpperCase P e \<in> {str ''HEX'', str ''BASE64'', str ''BASE64_URLSAFE''}"
      by auto
    have xpost: "toUpperCase P x = str ''BASE64_URLSAFE''
                \<or> (toUpperCase P x = str ''BASE64''
                    \<and> (\<forall>e\<in>set post. toUpperCase P e \<noteq> str ''BASE64_URLSAFE''))"
      using xv nourl r by auto
    have "\<not> (\<exists>e\<in>set r2. toUpperCase P e \<noteq> str ''UTF8'')"
    proof
      assume "\<exists>e\<in>set r2. toUpperCase P e \<noteq> str ''UTF8''"
      then obtain us n rest where r2: "r2 = us @ n # rest" and n: "toUpperCase P n \<noteq> str ''UTF8''"
        and us: "\<forall>e\<in>set us. \<not> toUpperCase P e \<noteq> str ''UTF8''"
        by (rule split_list_first_propE)
      from us have us: "\<forall>e\<in>set us. toUpperCase P e = str ''UTF8''" by simp
      from n names' r r2 have n: "toUpperCase P n \<in> {str ''HEX'', str ''BASE64'', str ''BASE64_URLSAFE''}"
        by auto
      from names' r r2 have rest: "\<forall>e\<in>set rest. toUpperCase P e \<in> {str ''UTF8'', str ''HEX'', str ''BASE64'', str ''BASE64_URLSAFE''}"
        by auto
      have x': "toUpperCase P x = str ''BASE64_URLSAFE''
            \<or> (toUpperCase P x = str ''BASE64''
                \<and> (\<forall>e\<in>set (post @ u # us @ n # rest). toUpperCase P e \<noteq> str ''BASE64_URLSAFE''))"
        using xv nourl r r2 by auto
      from fail_reparse [OF pre post x' u us n rest] ok E r r2 show False by auto
    qed
    then have suf: "\<forall>e\<in>set (u # r2). toUpperCase P e = str ''UTF8''" using u by simp
    have "E = pre @ x # post @ (u # r2)" using E r by simp
    moreover have "\<forall>e\<in>set (pre @ (u # r2)). toUpperCase P e = str ''UTF8''" using pre suf by auto
    ultimately show ?thesis using post xpost by blast
  qed
qed

section \<open>The codec: claims C1, C9 and C10\<close>

text \<open>
  Claim C1, as stated: for every chain \<open>E\<close> over UTF8, HEX, BASE64 and BASE64_URLSAFE and
  every payload, decoding the encoding with the same chain gives the payload back. It
  fails for the chain \<open>[UTF8]\<close>: \<open>encode\<close> renders the bytes of \<open>abc\<close> as Base64 and
  \<open>decode\<close> leaves a string alone under \<open>UTF8\<close>.
\<close>

theorem C1_counterexample:
  "bindE (EncodingUtils_encode example_platform (Str (str ''abc'')) [str ''UTF8''])
         (\<lambda>c. EncodingUtils_decode example_platform c [str ''UTF8'']) = Inr (str ''YWJj'')
   \<and> str ''YWJj'' \<noteq> str ''abc''"
  by (simp add: js_eval codec_eval encoding_eval)

text \<open>
  Claim C1, amended: for a chain \<open>E\<close>, \<open>decode\<close> of \<open>encode\<close> of the payload is the text of
  the payload for every byte payload that is well-formed UTF-8 if and only if \<open>E\<close>
  consists of any number of \<open>UTF8\<close> entries, then \<open>BASE64_URLSAFE\<close> or \<open>BASE64\<close>, then
  any entries among \<open>HEX\<close>, \<open>BASE64\<close> and \<open>BASE64_URLSAFE\<close> (none of them
  \<open>BASE64_URLSAFE\<close> when the first is \<open>BASE64\<close>), then any number of \<open>UTF8\<close> entries;
  the names are compared after \<open>toUpperCase\<close>. On every other chain some well-formed
  payload is not reproduced: a chain of \<open>UTF8\<close> entries only, a chain whose first entry
  other than \<open>UTF8\<close> is \<open>HEX\<close>, a chain with \<open>BASE64_URLSAFE\<close> after a leading \<open>BASE64\<close>,
  a chain with an entry other than \<open>UTF8\<close> after a \<open>UTF8\<close> entry that follows the Base64
  entry, and a chain with an unsupported name.
\<close>

theorem C1_roundtrip_exactly_on_base64_chains:
  "(\<forall>payload plain. Utf8_stringify payload = Inr plain \<longrightarrow>
       bindE (EncodingUtils_encode P (WordArray payload) E)
             (\<lambda>c. EncodingUtils_decode P c E) = Inr plain)
   \<longleftrightarrow> (\<exists>pre x post suf. E = pre @ x # post @ suf
         \<and> (\<forall>e\<in>set (pre @ suf). toUpperCase P e = str ''UTF8'')
         \<and> (\<forall>e\<in>set post. toUpperCase P e \<in> {str ''HEX'', str ''BASE64'', str ''BASE64_URLSAFE''})
         \<and> (toUpperCase P x = str ''BASE64_URLSAFE''
              \<or> (toUpperCase P x = str ''BASE64''
                  \<and> (\<forall>e\<in>set post. toUpperCase P e \<noteq> str ''BASE64_URLSAFE''))))"
  (is "?L \<longleftrightarrow> ?R")
proof
  assume ok: ?L
  have "\<forall>e\<in>set E. toUpperCase P e \<in> {str ''UTF8'', str ''HEX'', str ''BASE64'', str ''BASE64_URLSAFE''}"
  proof (rule ccontr)
    assume "\<not> ?thesis"
    then have "\<exists>e\<in>set E. toUpperCase P e \<notin> {str ''UTF8'', str ''HEX'', str ''BASE64'', str ''BASE64_URLSAFE''}"
      by blast
    from fail_invalid [OF this, of "WordArray []" "[]"]
    have "bindE (EncodingUtils_encode P (WordArray []) E) (\<lambda>c. EncodingUtils_decode P c E) \<noteq> Inr []" .
    moreover have "Utf8_stringify [] = Inr []" by (simp add: Utf8_stringify_def)
    ultimately show False using ok by blast
  qed
  then show ?R using ok by (rule chain_cases)
next
  assume ?R
  then obtain pre x post suf where E: "E = pre @ x # post @ suf"
    and u: "\<forall>e\<in>set (pre @ suf). toUpperCase P e = str ''UTF8''"
    and post: "\<forall>e\<in>set post. toUpperCase P e \<in> {str ''HEX'', str ''BASE64'', str ''BASE64_URLSAFE''}"
    and x: "toUpperCase P x = str ''BASE64_URLSAFE''
              \<or> (toUpperCase P x = str ''BASE64''
                  \<and> (\<forall>e\<in>set post. toUpperCase P e \<noteq> str ''BASE64_URLSAFE''))"
    by blast
  from u have pre: "\<forall>e\<in>set pre. toUpperCase P e = str ''UTF8''"
    and suf: "\<forall>e\<in>set suf. toUpperCase P e = str ''UTF8''" by simp_all
  show ?L
    unfolding E using roundtrip_shape [OF pre post x suf] by blast
qed

text \<open>The chain \<open>utf8, BASE64, HEX, UTF8\<close> on the bytes of \<open>abc\<close>.\<close>

theorem C1_roundtrip_exactly_on_base64_chains_witness:
  "bindE (EncodingUtils_encode example_platform (WordArray [0x61, 0x62, 0x63])
            [str ''utf8'', str ''BASE64'', str ''HEX'', str ''UTF8''])
         (\<lambda>c. EncodingUtils_decode example_platform c
            [str ''utf8'', str ''BASE64'', str ''HEX'', str ''UTF8''])
     = Inr (str ''abc'')"
proof -
  let ?E = "[str ''utf8'', str ''BASE64'', str ''HEX'', str ''UTF8'']"
  have "?E = [str ''utf8''] @ str ''BASE64'' # [str ''HEX''] @ [str ''UTF8'']
        \<and> (\<forall>e\<in>set ([str ''utf8''] @ [str ''UTF8'']). toUpperCase example_platform e = str ''UTF8'')
        \<and> (\<forall>e\<in>set [str ''HEX'']. toUpperCase example_platform e
               \<in> {str ''HEX'', str ''BASE64'', str ''BASE64_URLSAFE''})
        \<and> (toUpperCase example_platform (str ''BASE64'') = str ''BASE64_URLSAFE''
              \<or> (toUpperCase example_platform (str ''BASE64'') = str ''BASE64''
                  \<and> (\<forall>e\<in>set [str ''HEX'']. toUpperCase example_platform e \<noteq> str ''BASE64_URLSAFE'')))"
    by (simp add: js_eval)
  then have shape: "\<exists>pre x post suf. ?E = pre @ x # post @ suf
         \<and> (\<forall>e\<in>set (pre @ suf). toUpperCase example_platform e = str ''UTF8'')
         \<and> (\<forall>e\<in>set post. toUpperCase example_platform e \<in> {str ''HEX'', str ''BASE64'', str ''BASE64_URLSAFE''})
         \<and> (toUpperCase example_platform x = str ''BASE64_URLSAFE''
              \<or> (toUpperCase example_platform x = str ''BASE64''
                  \<and> (\<forall>e\<in>set post. toUpperCase example_platform e \<noteq> str ''BASE64_URLSAFE'')))"
    by blast
  have abc: "Utf8_stringify [0x61, 0x62, 0x63] = Inr (str ''abc'')"
    by (simp add: js_eval codec_eval)
  from C1_roundtrip_exactly_on_base64_chains [of example_platform ?E] shape abc
  show ?thesis by blast
qed

subsection \<open>Hex decoding\<close>









subsection \<open>The last step of decode\<close>

text \<open>
  Claim C10: whenever the loop of \<open>EncodingUtils.decode\<close> has run through the chain, the
  function returns a string: the loop's string, or the UTF-8 text of the loop's word
  array, or, when those bytes are not well-formed UTF-8, their standard Base64
  rendering. The caller cannot tell the fallback from a genuine text: under the chain
  \<open>[BASE64]\<close> the input \<open>/w==\<close> (the byte FF, not UTF-8) and the input \<open>L3c9PQ==\<close> (the
  text \<open>/w==\<close>) both return \<open>/w==\<close>.
\<close>

theorem C10_final_step_falls_back_to_base64:
  "(decode_loop P (Str d) encodings = Inr result \<longrightarrow>
      EncodingUtils_decode P d encodings
        = Inr (case result of
                 Str s \<Rightarrow> s
               | WordArray w \<Rightarrow>
                   (case Utf8_stringify w of Inr s \<Rightarrow> s | Inl e \<Rightarrow> Base64_stringify w)))
   \<and> Utf8_stringify [0xFF] = Inl (Error ''Malformed UTF-8 data'')
   \<and> EncodingUtils_decode P (str ''/w=='') [str ''BASE64''] = Inr (str ''/w=='')
   \<and> EncodingUtils_decode P (str ''L3c9PQ=='') [str ''BASE64''] = Inr (str ''/w=='')"
proof (intro conjI impI)
  assume "decode_loop P (Str d) encodings = Inr result"
  then show "EncodingUtils_decode P d encodings
        = Inr (case result of
                 Str s \<Rightarrow> s
               | WordArray w \<Rightarrow>
                   (case Utf8_stringify w of Inr s \<Rightarrow> s | Inl e \<Rightarrow> Base64_stringify w))"
    by (simp add: EncodingUtils_decode_def bindE_def decode_final_def)
next
  show "Utf8_stringify [0xFF] = Inl (Error ''Malformed UTF-8 data'')"
    by (simp add: codec_eval)
next
  show "EncodingUtils_decode P (str ''/w=='') [str ''BASE64''] = Inr (str ''/w=='')"
    by (simp add: js_eval codec_eval encoding_eval)
next
  show "EncodingUtils_decode P (str ''L3c9PQ=='') [str ''BASE64''] = Inr (str ''/w=='')"
    by (simp add: js_eval codec_eval encoding_eval)
qed

text \<open>The input \<open>/w==\<close> under the chain \<open>[BASE64]\<close>.\<close>

theorem C10_final_step_falls_back_to_base64_witness:
  "decode_loop example_platform (Str (str ''/w=='')) [str ''BASE64''] = Inr (WordArray [0xFF])
   \<and> EncodingUtils_decode example_platform (str ''/w=='') [str ''BASE64'']
       = Inr (case WordArray [0xFF] of
                Str s \<Rightarrow> s
              | WordArray w \<Rightarrow>
                  (case Utf8_stringify w of Inr s \<Rightarrow> s | Inl e \<Rightarrow> Base64_stringify w))"
proof -
  have h: "decode_loop example_platform (Str (str ''/w=='')) [str ''BASE64''] = Inr (WordArray [0xFF])"
    by (simp add: js_eval codec_eval)
  from C10_final_step_falls_back_to_base64 [of example_platform "str ''/w==''" "[str ''BASE64'']" "WordArray [0xFF]"] h
  show ?thesis by blast
qed

section \<open>The cipher engine: claims C3 and C5\<close>

lemmas cipher_eval = parsedKey_def parsedIv_def modeOf_def paddingOf_def encryptOptions_def
  decryptOptions_def CryptoJS_mode_def CryptoJS_pad_def AESCipher_decrypt_def AESCipher_encrypt_def
  validBytes_def example_platform_def example_key_def aes_profile_def rsa_profile_def Let_def

lemma actualLength_prefix:
  "m \<le> length xs \<Longrightarrow> actualLength (xs @ ys) m = actualLength xs m"
  by (induction m) (simp_all add: nth_append)

lemma actualLength_zeros:
  "k \<le> n \<Longrightarrow> actualLength (body @ replicate n 0) (length body + k) = actualLength body (length body)"
  by (induction k) (simp_all add: nth_append actualLength_prefix)

lemma actualLength_append_zeros:
  "actualLength (body @ replicate n 0) (length body + n) = actualLength body (length body)"
  by (rule actualLength_zeros) simp

lemma actualLength_no_trailing_zero:
  "body = [] \<or> last body \<noteq> 0 \<Longrightarrow> actualLength body (length body) = length body"
  by (cases body rule: rev_cases) simp_all

lemma validBytes_strip:
  "body = [] \<or> last body \<noteq> 0 \<Longrightarrow> validBytes (body @ replicate n 0) = body"
  by (simp add: validBytes_def actualLength_append_zeros actualLength_no_trailing_zero)

text \<open>
  Claim C5: let the primitive return the bytes \<open>body\<close> followed by \<open>n\<close> zero bytes, where
  \<open>body\<close> does not end in a zero byte (every byte sequence has exactly one such form).
  When the mode of the profile is CTR, \<open>AESCipher.decrypt\<close> returns the text of \<open>body\<close>
  alone: the whole run of trailing zero bytes is gone, also when it belonged to the
  plain text. In every other mode the text is made from all the bytes.
\<close>

theorem C5_trailing_zero_trim_only_in_ctr:
  assumes "parsedKey P cfg = Inr k" and "parsedIv P cfg = Inr v"
    and "Utf8_parse k = Inr keyWordArray" and "Utf8_parse v = Inr ivWordArray"
    and "AES_decrypt P ciphertext keyWordArray (decryptOptions P cfg ivWordArray)
           = Inr (body @ replicate n 0)"
    and "body = [] \<or> last body \<noteq> 0"
  shows "AESCipher_decrypt P ciphertext cfg =
           (if toUpperCase P (modeOf cfg) = str ''CTR'' then Inr (TextDecoder_decode body)
            else Utf8_stringify (body @ replicate n 0))"
  using assms by (simp add: AESCipher_decrypt_def bindE_def validBytes_strip)

text \<open>The profile \<open>AES/CTR/NoPadding\<close> on the cipher text of \<open>hi\<close> followed by two zero bytes.\<close>

theorem C5_trailing_zero_trim_only_in_ctr_witness:
  "AESCipher_decrypt example_platform (str ''aGkAAA=='') (aes_profile ''CTR'') =
     (if toUpperCase example_platform (modeOf (aes_profile ''CTR'')) = str ''CTR''
      then Inr (TextDecoder_decode [0x68, 0x69])
      else Utf8_stringify ([0x68, 0x69] @ replicate 2 0))"
  by (rule C5_trailing_zero_trim_only_in_ctr
        [where k = "str ''0123456789abcdef''" and v = "str ''0123456789abcdef''"
           and keyWordArray = "map of_nat (str ''0123456789abcdef'')"
           and ivWordArray = "map of_nat (str ''0123456789abcdef'')"])
     (simp_all add: cipher_eval js_eval codec_eval encoding_eval)

text \<open>
  In \<open>AESCipher.decrypt\<close> every mode other than ECB and CBC gets \<open>NoPadding\<close>, whatever
  the profile declares.
\<close>

lemma decrypt_no_padding:
  "toUpperCase P (modeOf cfg) \<notin> {str ''ECB'', str ''CBC''} \<Longrightarrow> opt_padding (decryptOptions P cfg ivWordArray) = NoPadding"
  by (simp add: decryptOptions_def Let_def)

text \<open>
  Claim C3 says the same of \<open>AESCipher.encrypt\<close>. There the padding handed to the primitive
  does not depend on the mode: for the profiles \<open>AES/CTR/NoPadding\<close>, \<open>AES/CFB/NoPadding\<close>
  and \<open>AES/OFB/NoPadding\<close> it is \<open>Pkcs7\<close>, while \<open>AESCipher.decrypt\<close> uses \<open>NoPadding\<close> for
  the first of them.
\<close>

theorem C3_encrypt_passes_padding_in_stream_modes:
  "opt_padding (decryptOptions P (aes_profile ''CTR'') ivWordArray) = NoPadding
   \<and> opt_padding (encryptOptions P (aes_profile ''CTR'') ivWordArray) = Pkcs7
   \<and> opt_padding (encryptOptions P (aes_profile ''CFB'') ivWordArray) = Pkcs7
   \<and> opt_padding (encryptOptions P (aes_profile ''OFB'') ivWordArray) = Pkcs7"
  by (simp add: cipher_eval js_eval)

section \<open>The classifier: claims C2, C4, C6, C7 and C8\<close>

subsection \<open>Evaluating the patterns, and the pieces of the sweep\<close>

lemma rep_numeral: "rep (numeral k) r = Seq r (rep (pred_numeral k) r)"
  by (simp add: numeral_eq_Suc)

lemma rep_upto_numeral: "rep_upto (numeral k) r = Opt (Seq r (rep_upto (pred_numeral k) r))"
  by (simp add: numeral_eq_Suc)

lemma rep_1: "rep 1 r = Seq r Empty" "rep_upto 1 r = Opt (Seq r Empty)"
  by simp_all

lemmas rx_eval = rep_numeral rep_upto_numeral rep_1 rep_between_def Opt_def Plus_def Lit_def
  inRanges_def anywhere_def digit_def hexdig_def alnum_def space_def octet_def ipv4Pattern_def
  digitsAndDots_def h4_def h4c_def ch4_def ipv6FullRegex_def ipv6CompressedRegex_def
  cidrPattern_def ipv6CidrPattern_def cronField_def cronPattern_def cronPatterns_def
  timestampPattern_def dateTimePattern_def base64Pattern_def urlEncodedPattern_def label_def
  domainPattern_def

lemmas classifier_eval = detectContentType_def detectType_def isLikelyRSACipher_def
  structuralType_def sweepBlock_def decodesToUrl_def
  hasRSAConfig_def isCFBMode_def judge_def attempt_def ret_def analyzePrintableCharacters_def
  EXTENDED_PRINTABLE_def CipherUtils_decrypt_def processPlaintextDecoding_def
  RSACipher_decrypt_def SM4Cipher_decrypt_def

lemma attempt_eq:
  "attempt P t c =
     Inr (case CipherUtils_decrypt P t c of Inl e \<Rightarrow> None | Inr d \<Rightarrow> judge P c t d)"
  by (simp add: attempt_def tryCatch_def bindE_def split: sum.splits)

lemma judge_cases: "judge P c t d = None \<or> judge P c t d = Some (str ''encrypted'')"
  by (simp add: judge_def)

lemma attempt_cases:
  "attempt P t c = Inr None \<or> attempt P t c = Inr (Some (str ''encrypted''))"
  using judge_cases [of P c t] by (simp add: attempt_eq split: sum.splits)

lemma sweep_first:
  assumes "\<forall>p\<in>set pre. attempt P t p = Inr None" and "attempt P t c = Inr (Some tg)"
  shows "sweep P t (pre @ c # post) = Inr (Some tg, pre @ [c])"
  using assms by (induction pre) (simp_all add: bindE_def)

lemma sweep_none:
  assumes "\<forall>p\<in>set cs. attempt P t p = Inr None"
  shows "sweep P t cs = Inr (None, cs)"
  using assms by (induction cs) (simp_all add: bindE_def)


lemma sweep_total:
  "\<exists>found tried. sweep P t cs = Inr (found, tried)
     \<and> (found = None \<or> found = Some (str ''encrypted''))"
proof (cases "\<forall>p\<in>set cs. attempt P t p = Inr None")
  case True
  then have "sweep P t cs = Inr (None, cs)" by (rule sweep_none)
  then show ?thesis by blast
next
  case False
  then have "\<exists>p\<in>set cs. attempt P t p \<noteq> Inr None" by blast
  then obtain pre c post where cs: "cs = pre @ c # post"
    and c: "attempt P t c \<noteq> Inr None" and pre: "\<forall>p\<in>set pre. \<not> attempt P t p \<noteq> Inr None"
    by (rule split_list_first_propE)
  from pre have pre': "\<forall>p\<in>set pre. attempt P t p = Inr None" by blast
  from c attempt_cases [of P t c] have "attempt P t c = Inr (Some (str ''encrypted''))" by blast
  from sweep_first [OF pre' this] have "sweep P t cs = Inr (Some (str ''encrypted''), pre @ [c])"
    unfolding cs .
  then show ?thesis by blast
qed

lemma isLikelyRSACipher_eq:
  "isLikelyRSACipher P store content =
     Inr (test base64Pattern (trim content) \<and> 100 < length (trim content)
          \<and> (\<exists>configs. store = Inr (Some configs) \<and> hasRSAConfig P configs))"
proof -
  have nil: "\<not> hasRSAConfig P []" by (simp add: hasRSAConfig_def)
  show ?thesis
    by (cases store; cases "projr store")
       (auto simp add: isLikelyRSACipher_def Let_def bindE_def tryCatch_def orElse_def nil)
qed

subsection \<open>The RSA rule\<close>

text \<open>
  Claim C8, as stated: the RSA rule fires exactly when the trimmed input matches the
  Base64 pattern, has at least 50 characters and an RSA profile is configured, with no
  further condition on the length. For 60 letters \<open>A\<close> and one RSA profile all three
  hold and \<open>isLikelyRSACipher\<close> returns \<open>false\<close>.
\<close>

theorem C8_counterexample:
  "test base64Pattern (trim (replicate 60 0x41)) \<and> 50 \<le> length (trim (replicate 60 0x41))
   \<and> hasRSAConfig example_platform [rsa_profile]
   \<and> isLikelyRSACipher example_platform (Inr (Some [rsa_profile])) (replicate 60 0x41) = Inr False"
  by (simp add: isLikelyRSACipher_eq hasRSAConfig_def rsa_profile_def js_eval rx_eval)

lemma hasRSAConfig_iff:
  "hasRSAConfig P configs \<longleftrightarrow>
     (\<exists>c\<in>set configs.
        (\<exists>a. algorithm c = Some a \<and> js_includes (toUpperCase P a) (str ''RSA''))
        \<or> (\<exists>t. algorithmType c = Some t \<and> toUpperCase P t = str ''RSA''))"
proof -
  have "((case algorithm c of None \<Rightarrow> False
          | Some a \<Rightarrow> js_includes (toUpperCase P a) (str ''RSA''))
         \<or> (case algorithmType c of None \<Rightarrow> False
             | Some t \<Rightarrow> toUpperCase P t = str ''RSA''))
        \<longleftrightarrow> ((\<exists>a. algorithm c = Some a \<and> js_includes (toUpperCase P a) (str ''RSA''))
             \<or> (\<exists>t. algorithmType c = Some t \<and> toUpperCase P t = str ''RSA''))" for c :: config
    by (cases "algorithm c"; cases "algorithmType c") simp_all
  then show ?thesis by (simp add: hasRSAConfig_def list_ex_iff)
qed

text \<open>
  Claim C8, amended: \<open>isLikelyRSACipher\<close> returns \<open>true\<close> exactly when the trimmed input
  matches \<open>/^[A-Za-z0-9+/]*={0,2}$/\<close>, has more than 100 characters, and the store holds
  a configuration whose algorithm, after \<open>toUpperCase\<close>, contains \<open>RSA\<close> or whose
  algorithm type, after \<open>toUpperCase\<close>, is \<open>RSA\<close>; in every other case, a failing store
  among them, it returns \<open>false\<close>. (The typical lengths 344, 172, 256 and 128 are all
  above 100. \<open>toUpperCase\<close> is the Unicode conversion: it makes \<open>RSA\<close> of \<open>rsa\<close> and also of
  \<open>r\<close>, long s, \<open>a\<close>.)
\<close>

theorem C8_rsa_rule_needs_more_than_100_characters:
  "isLikelyRSACipher P store content =
     Inr (test base64Pattern (trim content) \<and> 100 < length (trim content)
          \<and> (\<exists>configs. store = Inr (Some configs) \<and> hasRSAConfig P configs))
   \<and> (hasRSAConfig P cs \<longleftrightarrow>
        (\<exists>c\<in>set cs.
           (\<exists>a. algorithm c = Some a \<and> js_includes (toUpperCase P a) (str ''RSA''))
           \<or> (\<exists>t. algorithmType c = Some t \<and> toUpperCase P t = str ''RSA'')))"
  using isLikelyRSACipher_eq hasRSAConfig_iff by blast

lemma long_s_example: "toUpperCase example_platform [0x72, 0x17F, 0x61] = str ''RSA''"
  by (simp add: toUpperCase_def upperCodePoint_def CodePointsToString_def utf16_units_def
      asciiUpper_def example_platform_def str_def)

text \<open>
  104 letters \<open>A\<close> with one RSA profile, and with a profile whose algorithm is spelt with a
  long s and that has no algorithm type.
\<close>

theorem C8_rsa_rule_needs_more_than_100_characters_witness:
  "isLikelyRSACipher example_platform (Inr (Some [rsa_profile])) (replicate 104 0x41) = Inr True
   \<and> isLikelyRSACipher example_platform
        (Inr (Some [rsa_profile\<lparr>algorithm := Some [0x72, 0x17F, 0x61], algorithmType := None\<rparr>]))
        (replicate 104 0x41) = Inr True"
proof -
  note inst = C8_rsa_rule_needs_more_than_100_characters [where P = example_platform]
  have 1: "isLikelyRSACipher example_platform (Inr (Some [rsa_profile])) (replicate 104 0x41) = Inr True"
    by (subst inst [THEN conjunct1])
       (simp add: inst [THEN conjunct2] rsa_profile_def js_eval rx_eval)
  have 2: "isLikelyRSACipher example_platform
        (Inr (Some [rsa_profile\<lparr>algorithm := Some [0x72, 0x17F, 0x61], algorithmType := None\<rparr>]))
        (replicate 104 0x41) = Inr True"
    by (subst inst [THEN conjunct1])
       (simp add: inst [THEN conjunct2] long_s_example rsa_profile_def js_eval rx_eval)
  from 1 2 show ?thesis by blast
qed

subsection \<open>Totality\<close>

lemma sweepBlock_total:
  "\<exists>found tried. sweepBlock P store t = Inr (found, tried)
     \<and> (found = None \<or> found = Some (str ''encrypted''))"
proof (cases "10 < length t")
  case False
  then show ?thesis by (simp add: sweepBlock_def)
next
  case long: True
  show ?thesis
  proof (cases store)
    case (Inl e)
    with long show ?thesis by (simp add: sweepBlock_def tryCatch_def bindE_def)
  next
    case (Inr result)
    show ?thesis
    proof (cases "orElse result [] = []")
      case True
      with long Inr show ?thesis by (simp add: sweepBlock_def tryCatch_def bindE_def)
    next
      case False
      obtain found tried where "sweep P t (orElse result []) = Inr (found, tried)"
        and "found = None \<or> found = Some (str ''encrypted'')"
        using sweep_total [of P t "orElse result []"] by blast
      with long Inr False show ?thesis
        by (simp add: sweepBlock_def tryCatch_def bindE_def)
    qed
  qed
qed

lemma decodesToUrl_total: "\<exists>b. decodesToUrl P t = Inr b"
  by (auto simp add: decodesToUrl_def tryCatch_def bindE_def split: sum.splits)

lemma structuralType_tags: "structuralType t = Some x \<Longrightarrow> str x \<in> tags"
  by (auto simp add: structuralType_def tags_def split: if_splits)

lemma detectContentType_total:
  "\<exists>d. detectContentType P store content = Inr d \<and> tag d \<in> tags"
proof -
  let ?t = "trim content"
  show ?thesis
  proof (cases "structuralType ?t")
    case (Some x)
    then show ?thesis
      by (simp add: detectContentType_def Let_def ret_def structuralType_tags)
  next
    case None
    obtain rsa where rsa: "isLikelyRSACipher P store ?t = Inr rsa"
      using isLikelyRSACipher_eq by blast
    obtain found tried where sw: "sweepBlock P store ?t = Inr (found, tried)"
      and found: "found = None \<or> found = Some (str ''encrypted'')"
      using sweepBlock_total by blast
    obtain b where url: "decodesToUrl P ?t = Inr b"
      using decodesToUrl_total by blast
    from found show ?thesis
      by (auto simp add: detectContentType_def Let_def None rsa sw url ret_def bindE_def tags_def)
  qed
qed


lemma structuralType_names:
  "structuralType t = Some x \<Longrightarrow>
     x \<in> {''ip'', ''ipv6'', ''cidr'', ''ipv6cidr'', ''cron'', ''timestamp'', ''datetime''}"
  by (auto simp add: structuralType_def split: if_splits)

lemma detectContentType_default:
  assumes "structuralType (trim content) = None"
    and "isLikelyRSACipher P store (trim content) = Inr False"
    and "sweepBlock P store (trim content) = Inr (None, tried)"
    and "\<not> startsWith (toLowerCase P (trim content)) (str ''http'')"
    and "decodesToUrl P (trim content) = Inr False"
    and "\<not> test domainPattern (trim content)"
  shows "detectContentType P store content = Inr \<lparr>tag = str ''encode'', attempts = tried\<rparr>"
  using assms by (simp add: detectContentType_def Let_def bindE_def ret_def)

lemma detectType_total: "\<exists>d. detectType P store content = Inr d \<and> tag d \<in> tags"
  using detectContentType_total [of P store content]
  by (simp add: detectType_def ret_def tags_def)

text \<open>
  Claim C4: for every text, every state of the configuration store and every behaviour
  of the primitives, \<open>detectContentType\<close> (and the effect \<open>detectType\<close> around it) returns
  and does not throw, and its tag is one of \<open>ip\<close>, \<open>ipv6\<close>, \<open>cidr\<close>, \<open>ipv6cidr\<close>, \<open>cron\<close>,
  \<open>timestamp\<close>, \<open>datetime\<close>, \<open>url\<close>, \<open>domain\<close>, \<open>encrypted\<close>, \<open>encode\<close>; when no check
  matches, the tag is \<open>encode\<close>.
\<close>

theorem C4_classifier_is_total:
  "(\<exists>d. detectContentType P store content = Inr d
         \<and> tag d \<in> {str ''ip'', str ''ipv6'', str ''cidr'', str ''ipv6cidr'', str ''cron'',
                      str ''timestamp'', str ''datetime'', str ''url'', str ''domain'',
                      str ''encrypted'', str ''encode''})
   \<and> (\<exists>d. detectType P store content = Inr d
         \<and> tag d \<in> {str ''ip'', str ''ipv6'', str ''cidr'', str ''ipv6cidr'', str ''cron'',
                      str ''timestamp'', str ''datetime'', str ''url'', str ''domain'',
                      str ''encrypted'', str ''encode''})
   \<and> (structuralType (trim content) = None
        \<and> isLikelyRSACipher P store (trim content) = Inr False
        \<and> sweepBlock P store (trim content) = Inr (None, tried)
        \<and> \<not> startsWith (toLowerCase P (trim content)) (str ''http'')
        \<and> decodesToUrl P (trim content) = Inr False
        \<and> \<not> test domainPattern (trim content)
        \<longrightarrow> detectContentType P store content = Inr \<lparr>tag = str ''encode'', attempts = tried\<rparr>)"
  using detectContentType_total [of P store content] detectType_total [of P store content]
    detectContentType_default [where content = content and store = store and P = P and tried = tried]
  unfolding tags_def by blast

text \<open>The input \<open>MTIzNA==\<close> with no profile configured: no check matches.\<close>

theorem C4_classifier_is_total_witness:
  "detectContentType example_platform (Inr (Some [])) (str ''MTIzNA=='')
     = Inr \<lparr>tag = str ''encode'', attempts = []\<rparr>"
proof -
  let ?c = "str ''MTIzNA==''"
  have t: "trim ?c = ?c" by (simp add: js_eval)
  have 1: "structuralType (trim ?c) = None"
    unfolding t by (simp add: structuralType_def str_def rx_eval)
  have 2: "isLikelyRSACipher example_platform (Inr (Some [])) (trim ?c) = Inr False"
    by (simp add: isLikelyRSACipher_eq hasRSAConfig_def)
  have 3: "sweepBlock example_platform (Inr (Some [])) (trim ?c) = Inr (None, [])"
    unfolding t by (simp add: sweepBlock_def js_eval)
  have 4: "\<not> startsWith (toLowerCase example_platform (trim ?c)) (str ''http'')"
    unfolding t by (simp add: js_eval)
  have 5: "decodesToUrl example_platform (trim ?c) = Inr False"
    unfolding t by (simp add: decodesToUrl_def str_def rx_eval)
  have 6: "\<not> test domainPattern (trim ?c)"
    unfolding t by (simp add: str_def rx_eval)
  from C4_classifier_is_total [of example_platform "Inr (Some [])" ?c "[]"] 1 2 3 4 5 6
  show ?thesis by blast
qed

subsection \<open>Blank input, empty profile list\<close>

lemma trim_blank: "list_all isWhiteSpace s \<Longrightarrow> trim s = []"
proof -
  assume "list_all isWhiteSpace s"
  then have d: "dropWhile isWhiteSpace s = []"
    by (simp add: dropWhile_eq_Nil_conv list_all_iff)
  show ?thesis unfolding trim_def d by simp
qed

lemma structuralType_empty: "structuralType [] = None"
  by (simp add: structuralType_def rx_eval)

lemma detectContentType_blank:
  assumes "trim content = []"
  shows "detectContentType P store content = Inr \<lparr>tag = str ''encode'', attempts = []\<rparr>"
proof (rule detectContentType_default)
  show "structuralType (trim content) = None"
    unfolding assms by (rule structuralType_empty)
  show "isLikelyRSACipher P store (trim content) = Inr False"
    unfolding assms by (simp add: isLikelyRSACipher_eq trim_def)
  show "sweepBlock P store (trim content) = Inr (None, [])"
    unfolding assms by (simp add: sweepBlock_def)
  show "\<not> startsWith (toLowerCase P (trim content)) (str ''http'')"
    unfolding assms by (simp add: startsWith_def toLowerCase_ascii str_def)
  show "decodesToUrl P (trim content) = Inr False"
    unfolding assms by (simp add: decodesToUrl_def rx_eval)
  show "\<not> test domainPattern (trim content)"
    unfolding assms by (simp add: rx_eval)
qed

lemma sweepBlock_no_profiles:
  "store = Inr None \<or> store = Inr (Some []) \<Longrightarrow> sweepBlock P store t = Inr (None, [])"
  by (auto simp add: sweepBlock_def tryCatch_def bindE_def orElse_def)

lemma rsa_no_profiles:
  "store = Inr None \<or> store = Inr (Some []) \<Longrightarrow> isLikelyRSACipher P store t = Inr False"
  by (auto simp add: isLikelyRSACipher_eq hasRSAConfig_def)

lemma detectContentType_no_profiles:
  assumes "store = Inr None \<or> store = Inr (Some [])"
  shows "\<exists>d. detectContentType P store content = Inr d \<and> attempts d = []
              \<and> tag d \<noteq> str ''encrypted''"
proof (cases "structuralType (trim content)")
  case (Some x)
  from structuralType_names [OF this] have "str x \<noteq> str ''encrypted''"
    by (auto simp add: str_def)
  with Some show ?thesis
    by (simp add: detectContentType_def Let_def ret_def)
next
  case None
  obtain b where url: "decodesToUrl P (trim content) = Inr b"
    using decodesToUrl_total by blast
  have ne: "str ''url'' \<noteq> str ''encrypted''" "str ''domain'' \<noteq> str ''encrypted''"
    "str ''encode'' \<noteq> str ''encrypted''"
    by (simp_all add: str_def)
  show ?thesis
    by (simp add: detectContentType_def Let_def None rsa_no_profiles [OF assms]
        sweepBlock_no_profiles [OF assms] url ret_def bindE_def ne)
qed

text \<open>
  Claim C6: for an input that is empty or consists of white space only, whatever the
  profiles, \<open>CipherUtils.decrypt\<close> is not called and the tag is \<open>encode\<close>, both in
  \<open>detectContentType\<close> and in \<open>detectType\<close>; and when the store holds no profile (the key
  is absent or the list is empty), \<open>CipherUtils.decrypt\<close> is not called for any input and
  the tag is not \<open>encrypted\<close>.
\<close>

theorem C6_blank_input_and_empty_profile_list_skip_the_sweep:
  "(list_all isWhiteSpace content \<longrightarrow>
      detectContentType P store content = Inr \<lparr>tag = str ''encode'', attempts = []\<rparr>
      \<and> detectType P store content = Inr \<lparr>tag = str ''encode'', attempts = []\<rparr>)
   \<and> (store = Inr None \<or> store = Inr (Some []) \<longrightarrow>
        (\<exists>d. detectContentType P store content = Inr d \<and> attempts d = []
              \<and> tag d \<noteq> str ''encrypted''))"
proof (intro conjI impI)
  assume "list_all isWhiteSpace content"
  then have t: "trim content = []" by (rule trim_blank)
  then show "detectContentType P store content = Inr \<lparr>tag = str ''encode'', attempts = []\<rparr>"
    by (rule detectContentType_blank)
  from t show "detectType P store content = Inr \<lparr>tag = str ''encode'', attempts = []\<rparr>"
    by (simp add: detectType_def ret_def)
next
  assume "store = Inr None \<or> store = Inr (Some [])"
  then show "\<exists>d. detectContentType P store content = Inr d \<and> attempts d = []
                 \<and> tag d \<noteq> str ''encrypted''"
    by (rule detectContentType_no_profiles)
qed

text \<open>Three spaces with a profile configured; a cipher text with none.\<close>

theorem C6_blank_input_and_empty_profile_list_skip_the_sweep_witness:
  "detectContentType example_platform (Inr (Some [aes_profile ''CBC''])) (str ''   '')
     = Inr \<lparr>tag = str ''encode'', attempts = []\<rparr>
   \<and> (\<exists>d. detectContentType example_platform (Inr (Some [])) (str ''AQEBAQEBAQEBAQEBAQEBAQ=='') = Inr d
          \<and> attempts d = [] \<and> tag d \<noteq> str ''encrypted'')"
proof -
  have b: "list_all isWhiteSpace (str ''   '')"
    by (simp add: str_def isWhiteSpace_def)
  have e: "(Inr (Some []) :: storage) = Inr None \<or> (Inr (Some []) :: storage) = Inr (Some [])"
    by simp
  from C6_blank_input_and_empty_profile_list_skip_the_sweep
         [of "str ''   ''" example_platform "Inr (Some [aes_profile ''CBC''])"] b
  have 1: "detectContentType example_platform (Inr (Some [aes_profile ''CBC''])) (str ''   '')
             = Inr \<lparr>tag = str ''encode'', attempts = []\<rparr>" by blast
  from C6_blank_input_and_empty_profile_list_skip_the_sweep
         [of "str ''AQEBAQEBAQEBAQEBAQEBAQ==''" example_platform "Inr (Some [])"] e
  have 2: "\<exists>d. detectContentType example_platform (Inr (Some [])) (str ''AQEBAQEBAQEBAQEBAQEBAQ=='') = Inr d
          \<and> attempts d = [] \<and> tag d \<noteq> str ''encrypted''" by blast
  from 1 2 show ?thesis by blast
qed

subsection \<open>The first succeeding profile\<close>

lemma sweepBlock_sweep:
  "10 < length t \<Longrightarrow> configs \<noteq> [] \<Longrightarrow> sweepBlock P (Inr (Some configs)) t = sweep P t configs"
  using sweep_total [of P t configs]
  by (auto simp add: sweepBlock_def tryCatch_def bindE_def orElse_def)

text \<open>
  Claim C7: the classifier is a function of the text, the store and the primitives, with
  no state of its own, so two runs on the same input agree. When the sweep is reached
  and \<open>c\<close> is the first profile of the list whose attempt succeeds, the sweep stops at
  \<open>c\<close>: \<open>CipherUtils.decrypt\<close> has been called on the profiles up to \<open>c\<close> in list order and
  on none after it, and the tag is \<open>encrypted\<close>, whatever profiles follow \<open>c\<close>.
\<close>

theorem C7_first_succeeding_profile_decides:
  assumes "\<forall>p\<in>set pre. attempt P (trim content) p = Inr None"
    and "attempt P (trim content) c = Inr (Some tg)"
    and "structuralType (trim content) = None"
    and "isLikelyRSACipher P (Inr (Some (pre @ c # post))) (trim content) = Inr False"
    and "10 < length (trim content)"
  shows "sweep P (trim content) (pre @ c # post) = Inr (Some tg, pre @ [c])
         \<and> detectContentType P (Inr (Some (pre @ c # post))) content
             = Inr \<lparr>tag = tg, attempts = pre @ [c]\<rparr>
         \<and> tg = str ''encrypted''"
proof -
  have sw: "sweep P (trim content) (pre @ c # post) = Inr (Some tg, pre @ [c])"
    using assms(1,2) by (rule sweep_first)
  have "sweepBlock P (Inr (Some (pre @ c # post))) (trim content) = Inr (Some tg, pre @ [c])"
    using assms(5) by (simp add: sweepBlock_sweep sw)
  then have "detectContentType P (Inr (Some (pre @ c # post))) content
               = Inr \<lparr>tag = tg, attempts = pre @ [c]\<rparr>"
    using assms(3,4) by (simp add: detectContentType_def Let_def bindE_def)
  moreover have "tg = str ''encrypted''"
    using assms(2) attempt_cases [of P "trim content" c] by auto
  ultimately show ?thesis using sw by blast
qed

lemma attempt_rsa_example: "attempt example_platform t rsa_profile = Inr None"
  by (simp add: attempt_eq CipherUtils_decrypt_def RSACipher_decrypt_def rsa_profile_def
      example_platform_def js_eval Let_def)

lemma decrypt_ofb_example:
  "CipherUtils_decrypt example_platform (str ''AQEBAQEBAQEBAQEBAQEBAQ=='') (aes_profile ''OFB'')
     = Inr (replicate 16 1)"
  by (simp add: CipherUtils_decrypt_def processPlaintextDecoding_def cipher_eval js_eval codec_eval
      encoding_eval)

lemma noise_unreadable: "\<not> isReadable (analyzePrintableCharacters (replicate 16 1))"
  by (simp add: analyzePrintableCharacters_def EXTENDED_PRINTABLE_def inRanges_def js_eval Let_def)

lemma attempt_ofb_example:
  "attempt example_platform (str ''AQEBAQEBAQEBAQEBAQEBAQ=='') (aes_profile ''OFB'')
     = Inr (Some (str ''encrypted''))"
proof -
  have "attempt example_platform (str ''AQEBAQEBAQEBAQEBAQEBAQ=='') (aes_profile ''OFB'')
          = Inr (judge example_platform (aes_profile ''OFB'') (str ''AQEBAQEBAQEBAQEBAQEBAQ=='') (replicate 16 1))"
    by (simp only: attempt_eq decrypt_ofb_example sum.case)
  also have "judge example_platform (aes_profile ''OFB'') (str ''AQEBAQEBAQEBAQEBAQEBAQ=='') (replicate 16 1)
               = Some (str ''encrypted'')"
    by (simp add: judge_def isCFBMode_def aes_profile_def js_eval)
  finally show ?thesis .
qed

lemma structural_example: "structuralType (str ''AQEBAQEBAQEBAQEBAQEBAQ=='') = None"
  by (simp add: structuralType_def str_def rx_eval)

lemma trim_example: "trim (str ''AQEBAQEBAQEBAQEBAQEBAQ=='') = str ''AQEBAQEBAQEBAQEBAQEBAQ==''"
  by (simp add: js_eval)

text \<open>
  An RSA profile whose attempt fails, then \<open>AES/OFB/NoPadding\<close>, then \<open>AES/CTR/NoPadding\<close>
  which is never tried.
\<close>

theorem C7_first_succeeding_profile_decides_witness:
  "sweep example_platform (trim (str ''AQEBAQEBAQEBAQEBAQEBAQ==''))
       ([rsa_profile] @ aes_profile ''OFB'' # [aes_profile ''CTR''])
     = Inr (Some (str ''encrypted''), [rsa_profile] @ [aes_profile ''OFB''])
   \<and> detectContentType example_platform
         (Inr (Some ([rsa_profile] @ aes_profile ''OFB'' # [aes_profile ''CTR''])))
         (str ''AQEBAQEBAQEBAQEBAQEBAQ=='')
       = Inr \<lparr>tag = str ''encrypted'', attempts = [rsa_profile] @ [aes_profile ''OFB'']\<rparr>
   \<and> str ''encrypted'' = str ''encrypted''"
proof (rule C7_first_succeeding_profile_decides)
  show "\<forall>p\<in>set [rsa_profile]. attempt example_platform (trim (str ''AQEBAQEBAQEBAQEBAQEBAQ=='')) p = Inr None"
    by (simp add: attempt_rsa_example)
  show "attempt example_platform (trim (str ''AQEBAQEBAQEBAQEBAQEBAQ=='')) (aes_profile ''OFB'')
          = Inr (Some (str ''encrypted''))"
    unfolding trim_example by (rule attempt_ofb_example)
  show "structuralType (trim (str ''AQEBAQEBAQEBAQEBAQEBAQ=='')) = None"
    unfolding trim_example by (rule structural_example)
  show "isLikelyRSACipher example_platform (Inr (Some ([rsa_profile] @ aes_profile ''OFB'' # [aes_profile ''CTR''])))
          (trim (str ''AQEBAQEBAQEBAQEBAQEBAQ=='')) = Inr False"
    unfolding trim_example by (simp add: isLikelyRSACipher_eq) (simp add: js_eval)
  show "10 < length (trim (str ''AQEBAQEBAQEBAQEBAQEBAQ==''))"
    unfolding trim_example by (simp add: str_def)
qed

subsection \<open>When a profile succeeds\<close>

lemma isReadable_iff:
  "isReadable (analyzePrintableCharacters d)
     \<longleftrightarrow> d \<noteq> [] \<and> length d \<le> 2 * length (filter (inRanges EXTENDED_PRINTABLE) d)"
proof (cases "d = []")
  case True
  then show ?thesis by (simp add: analyzePrintableCharacters_def)
next
  case False
  then have pos: "0 < real (length d)" by simp
  have "1 / 2 \<le> real (length (filter (inRanges EXTENDED_PRINTABLE) d)) / real (length d)
          \<longleftrightarrow> real (length d) \<le> 2 * real (length (filter (inRanges EXTENDED_PRINTABLE) d))"
    using pos by (simp add: field_simps)
  also have "\<dots> \<longleftrightarrow> length d \<le> 2 * length (filter (inRanges EXTENDED_PRINTABLE) d)"
    by (metis of_nat_le_iff of_nat_mult of_nat_numeral)
  finally show ?thesis using False by (simp add: analyzePrintableCharacters_def Let_def)
qed

text \<open>
  Claim C2, as stated: a profile in a stream-like mode (CFB, OFB, CTR) succeeds only when
  the analyzer finds the decrypted text readable. For the profile \<open>AES/OFB/NoPadding\<close>
  and a cipher text that decrypts to sixteen bytes 01, the analyzer reports not
  readable, and the profile succeeds all the same: the sweep stops at it and the
  classifier returns \<open>encrypted\<close>. (In OFB the plain text is the cipher text XOR a key
  stream, so for every key some cipher text decrypts to these bytes.)
\<close>

theorem C2_counterexample:
  "CipherUtils_decrypt example_platform (str ''AQEBAQEBAQEBAQEBAQEBAQ=='') (aes_profile ''OFB'')
     = Inr (replicate 16 1)
   \<and> toUpperCase example_platform (modeOf (aes_profile ''OFB'')) = str ''OFB''
   \<and> \<not> isReadable (analyzePrintableCharacters (replicate 16 1))
   \<and> attempt example_platform (str ''AQEBAQEBAQEBAQEBAQEBAQ=='') (aes_profile ''OFB'')
       = Inr (Some (str ''encrypted''))
   \<and> sweep example_platform (str ''AQEBAQEBAQEBAQEBAQEBAQ=='') [aes_profile ''OFB'']
       = Inr (Some (str ''encrypted''), [aes_profile ''OFB''])
   \<and> detectContentType example_platform (Inr (Some [aes_profile ''OFB'']))
         (str ''AQEBAQEBAQEBAQEBAQEBAQ=='')
       = Inr \<lparr>tag = str ''encrypted'', attempts = [aes_profile ''OFB'']\<rparr>"
proof -
  let ?t = "str ''AQEBAQEBAQEBAQEBAQEBAQ==''" and ?c = "aes_profile ''OFB''"
  have up: "toUpperCase example_platform (modeOf ?c) = str ''OFB''"
    by (simp add: modeOf_def aes_profile_def js_eval)
  have sw: "sweep example_platform ?t [?c] = Inr (Some (str ''encrypted''), [?c])"
    by (simp only: sweep.simps attempt_ofb_example bindE_def sum.case option.case)
  have len: "10 < length ?t" by (simp add: str_def)
  have "sweepBlock example_platform (Inr (Some [?c])) ?t = sweep example_platform ?t [?c]"
    by (rule sweepBlock_sweep [OF len]) simp
  with sw have sb: "sweepBlock example_platform (Inr (Some [?c])) ?t
                      = Inr (Some (str ''encrypted''), [?c])" by simp
  have "\<not> 100 < length ?t" by (simp add: str_def)
  then have rsa: "isLikelyRSACipher example_platform (Inr (Some [?c])) ?t = Inr False"
    by (simp add: isLikelyRSACipher_eq trim_example)
  have "detectContentType example_platform (Inr (Some [?c])) ?t
          = Inr \<lparr>tag = str ''encrypted'', attempts = [?c]\<rparr>"
    using sb rsa structural_example
    by (simp add: detectContentType_def Let_def bindE_def trim_example)
  with up sw show ?thesis
    using decrypt_ofb_example noise_unreadable attempt_ofb_example by blast
qed

text \<open>
  Claim C2, amended: the attempt on a profile succeeds exactly when \<open>CipherUtils.decrypt\<close>
  returns, without throwing, a text that is not empty and differs from the trimmed
  input, and, when the algorithm of the profile contains \<open>CFB\<close> or \<open>CTR\<close> or its mode is
  \<open>CFB\<close> or \<open>CTR\<close>, the analyzer reports \<open>isReadable\<close> (at least half of the code units
  are in the printable class); for every other profile such a result alone is
  sufficient. A succeeding attempt ends the sweep with the tag \<open>encrypted\<close>.
\<close>

theorem C2_profile_success_criterion:
  "attempt P t c =
     Inr (if \<exists>d. CipherUtils_decrypt P t c = Inr d \<and> d \<noteq> [] \<and> d \<noteq> t
                 \<and> (isCFBMode P c \<longrightarrow> isReadable (analyzePrintableCharacters d))
          then Some (str ''encrypted'') else None)
   \<and> (attempt P t c = Inr (Some tg) \<longrightarrow> sweep P t (c # cs) = Inr (Some tg, [c]))
   \<and> (isReadable (analyzePrintableCharacters d)
        \<longleftrightarrow> d \<noteq> [] \<and> length d \<le> 2 * length (filter (inRanges EXTENDED_PRINTABLE) d))"
proof (intro conjI impI)
  show "attempt P t c =
     Inr (if \<exists>d. CipherUtils_decrypt P t c = Inr d \<and> d \<noteq> [] \<and> d \<noteq> t
                 \<and> (isCFBMode P c \<longrightarrow> isReadable (analyzePrintableCharacters d))
          then Some (str ''encrypted'') else None)"
    by (cases "CipherUtils_decrypt P t c") (auto simp add: attempt_eq judge_def)
next
  assume "attempt P t c = Inr (Some tg)"
  then show "sweep P t (c # cs) = Inr (Some tg, [c])"
    by (simp add: bindE_def)
next
  show "isReadable (analyzePrintableCharacters d)
        \<longleftrightarrow> d \<noteq> [] \<and> length d \<le> 2 * length (filter (inRanges EXTENDED_PRINTABLE) d)"
    by (rule isReadable_iff)
qed

lemma decrypt_ctr_example:
  "CipherUtils_decrypt example_platform (str ''aGVsbG8gd29ybGQh'') (aes_profile ''CTR'')
     = Inr (str ''hello world!'')"
  by (simp add: CipherUtils_decrypt_def processPlaintextDecoding_def cipher_eval js_eval codec_eval
      encoding_eval)

text \<open>The profile \<open>AES/CTR/NoPadding\<close> on an input that decrypts to \<open>hello world!\<close>.\<close>

theorem C2_profile_success_criterion_witness:
  "attempt example_platform (str ''aGVsbG8gd29ybGQh'') (aes_profile ''CTR'')
     = Inr (Some (str ''encrypted''))
   \<and> sweep example_platform (str ''aGVsbG8gd29ybGQh'') (aes_profile ''CTR'' # [rsa_profile])
       = Inr (Some (str ''encrypted''), [aes_profile ''CTR''])"
proof -
  let ?t = "str ''aGVsbG8gd29ybGQh''" and ?c = "aes_profile ''CTR''"
  note inst = C2_profile_success_criterion [of example_platform ?t ?c "str ''encrypted''" "[rsa_profile]" "str ''hello world!''"]
  have ne: "str ''hello world!'' \<noteq> []" "str ''hello world!'' \<noteq> ?t"
    by (simp_all add: str_def)
  have "isReadable (analyzePrintableCharacters (str ''hello world!''))"
    unfolding inst [THEN conjunct2, THEN conjunct2]
    by (simp add: str_def EXTENDED_PRINTABLE_def inRanges_def)
  with decrypt_ctr_example ne
  have "\<exists>d. CipherUtils_decrypt example_platform ?t ?c = Inr d \<and> d \<noteq> [] \<and> d \<noteq> ?t
            \<and> (isCFBMode example_platform ?c \<longrightarrow> isReadable (analyzePrintableCharacters d))"
    by blast
  with inst [THEN conjunct1] have a: "attempt example_platform ?t ?c = Inr (Some (str ''encrypted''))"
    by simp
  with inst [THEN conjunct2, THEN conjunct1] show ?thesis by blast
qed

end
